theory Spec2Isabelle
  imports Complex_Main "HOL-Library.Signed_Division"
begin

section \<open>Data model of \<open>Grid::createBarrier\<close>\<close>

subsection \<open>Machine integers\<close>

text \<open>
  The coordinates and loop counters of \<open>createBarrier.cpp\<close> are \<open>int16_t\<close>; the random
  draws, \<open>margin\<close> and the counters of selector 6 are \<open>unsigned\<close> (taken as 32 bits wide).
  Both are modelled as \<open>int\<close> with the wrap-around of every conversion written out:
  \<open>int16_t v\<close> is the value an \<open>int16_t\<close> variable holds after \<open>v\<close> is assigned to it,
  \<open>unsigned v\<close> the value of an \<open>unsigned\<close> one.
\<close>

definition int16_t :: "int \<Rightarrow> int" where
  "int16_t v = (v + 32768) mod 65536 - 32768"

definition unsigned :: "int \<Rightarrow> int" where
  "unsigned v = v mod 4294967296"

subsection \<open>Coordinates, cells, the grid and its two records\<close>

text \<open>\<open>Coord\<close> is built in the source from two \<open>int16_t\<close> values: \<open>{x, y}\<close>.\<close>

datatype Coord = Coord (coord_x: int) (coord_y: int)

text \<open>
  Modelled from the spec: the cell markers of the grid, which is outside
  \<open>createBarrier.cpp\<close>: "each cell holds one of an enumerated set of states including at
  least EMPTY and BARRIER (other occupant states exist)".
\<close>

datatype cell = EMPTY | BARRIER | OCCUPANT nat

text \<open>
  The state \<open>createBarrier\<close> works on: the cells of the global \<open>grid\<close>, the members
  \<open>barrierLocations\<close> and \<open>barrierCenters\<close>, and the state of the random source.
  \<open>setLog\<close> is the sequence of calls \<open>grid.set\<close> has received, oldest first.
\<close>

record 'r world =
  cells :: "Coord \<Rightarrow> cell"
  setLog :: "(Coord \<times> cell) list"
  barrierLocations :: "Coord list"
  barrierCenters :: "Coord list"
  rng :: 'r

text \<open>
  What \<open>createBarrier\<close> uses from outside its file, taken as parameters: the grid
  dimensions \<open>p.sizeX\<close> and \<open>p.sizeY\<close> (their declaration is not in the file; they are
  natural numbers here, and every conversion to \<open>int16_t\<close> or \<open>unsigned\<close> is written where
  the source makes it), the random source \<open>randomUint(min, max)\<close> (it takes the state of
  the source and returns the draw and the next state) and \<open>visitNeighborhood\<close>, taken as
  the sequence of locations on which it calls its callback for a centre and a radius.
\<close>

record 'r env =
  sizeX :: nat
  sizeY :: nat
  randomUint :: "'r \<Rightarrow> int \<Rightarrow> int \<Rightarrow> int \<times> 'r"
  visitNeighborhood :: "Coord \<Rightarrow> nat \<Rightarrow> Coord list"

text \<open>
  Modelled from the spec: \<open>Grid::set\<close>, which is outside \<open>createBarrier.cpp\<close>: "a 2D scalar
  field indexed by integer coordinates, supporting set(coord, value)"; "the design does not
  clamp out-of-range coordinates". The call is recorded in \<open>setLog\<close>.
\<close>

definition grid_set :: "Coord \<Rightarrow> cell \<Rightarrow> 'r world \<Rightarrow> 'r world" where
  "grid_set loc val s = s\<lparr>cells := (cells s)(loc := val), setLog := setLog s @ [(loc, val)]\<rparr>"

text \<open>
  Modelled from the spec: \<open>Coord\<close>'s subtraction, which is outside \<open>createBarrier.cpp\<close>:
  "Supports componentwise subtraction". The difference is a \<open>Coord\<close> again, so its
  components are \<open>int16_t\<close>.
\<close>

definition coord_sub :: "Coord \<Rightarrow> Coord \<Rightarrow> Coord" where
  "coord_sub a b = Coord (int16_t (coord_x a - coord_x b)) (int16_t (coord_y a - coord_y b))"

text \<open>
  Modelled from the spec: \<open>Coord::length()\<close>, which is outside \<open>createBarrier.cpp\<close>:
  "Euclidean length of the difference (used for minimum-separation checks)".
\<close>

definition coord_length :: "Coord \<Rightarrow> real" where
  "coord_length c = sqrt (real_of_int (coord_x c * coord_x c + coord_y c * coord_y c))"

text \<open>
  The test \<open>c.length() < m\<close> for an \<open>unsigned\<close> \<open>m\<close>. It is the same test whether \<open>length()\<close>
  delivers the root itself or the root rounded down to a whole number; lemma
  \<open>length_less_code\<close> below computes it on integers.
\<close>

definition length_less :: "Coord \<Rightarrow> int \<Rightarrow> bool" where
  "length_less c m = (coord_length c < real_of_int m)"

section \<open>The program\<close>

text \<open>
  The two statements every variant runs for a cell, written out in the loops of selectors
  1, 2 and 4 and in \<open>drawBox\<close>, and the whole of the callback \<open>f\<close> of selectors 5 and 6:
  \<^verbatim>\<open>grid.set(loc, BARRIER); barrierLocations.push_back(loc);\<close>
\<close>

definition markCell :: "Coord \<Rightarrow> 'r world \<Rightarrow> 'r world" where
  "markCell loc s = (let s1 = grid_set loc BARRIER s in s1\<lparr>barrierLocations := barrierLocations s1 @ [loc]\<rparr>)"

text \<open>
  \<^verbatim>\<open>for (int16_t y = minY; y <= maxY; ++y) { ... }\<close>
  The counter is an \<open>int16_t\<close>: \<open>++y\<close> at 32767 gives -32768, so with \<open>maxY = 32767\<close> the
  test never fails. Not returning is the value \<open>None\<close>.
\<close>

partial_function (option) yLoop :: "int \<Rightarrow> int \<Rightarrow> int \<Rightarrow> 'r world \<Rightarrow> 'r world option" where
  "yLoop x y maxY s =
     (if y \<le> maxY then yLoop x (int16_t (y + 1)) maxY (markCell (Coord x y) s) else Some s)"

declare yLoop.simps [code]

text \<open>\<^verbatim>\<open>for (int16_t x = minX; x <= maxX; ++x) { for (int16_t y = minY; ...) }\<close>\<close>

partial_function (option) xLoop :: "int \<Rightarrow> int \<Rightarrow> int \<Rightarrow> int \<Rightarrow> 'r world \<Rightarrow> 'r world option" where
  "xLoop x minY maxX maxY s =
     (if x \<le> maxX
      then Option.bind (yLoop x minY maxY s) (xLoop (int16_t (x + 1)) minY maxX maxY)
      else Some s)"

declare xLoop.simps [code]

text \<open>The lambda \<open>drawBox\<close>; its four parameters are \<open>int16_t\<close>.\<close>

definition drawBox :: "int \<Rightarrow> int \<Rightarrow> int \<Rightarrow> int \<Rightarrow> 'r world \<Rightarrow> 'r world option" where
  "drawBox minX minY maxX maxY s = xLoop minX minY maxX maxY s"

text \<open>Selector 1: vertical bar in constant location.\<close>

definition barrier1 :: "'r env \<Rightarrow> 'r world \<Rightarrow> 'r world option" where
  "barrier1 p s =
     (let minX = int16_t (int (sizeX p div 2));
          maxX = int16_t (minX + 1);
          minY = int16_t (int (sizeY p div 4));
          maxY = int16_t (minY + int (sizeY p div 2))
      in xLoop minX minY maxX maxY s)"

text \<open>Selector 2: vertical bar in random location.\<close>

definition barrier2 :: "'r env \<Rightarrow> 'r world \<Rightarrow> 'r world option" where
  "barrier2 p s =
     (let (rx, r1) = randomUint p (rng s)
                       (unsigned (int (sizeX p div 10))) (unsigned (int (sizeX p - sizeX p div 10)));
          midX = int16_t rx;
          (ry, r2) = randomUint p r1
                       (unsigned (int (sizeY p div 4))) (unsigned (int (sizeY p - sizeY p div 4)));
          midY = int16_t ry;
          minX = int16_t (midX - 1);
          maxX = int16_t (midX + 1);
          minY = int16_t (midY - int (sizeY p div 4));
          maxY = int16_t (midY + int (sizeY p div 4));
          s1 = s\<lparr>rng := r2, barrierCenters := barrierCenters s @ [Coord midX midY]\<rparr>
      in xLoop minX minY maxX maxY s1)"

text \<open>Selector 3: five blocks staggered.\<close>

definition barrier3 :: "'r env \<Rightarrow> 'r world \<Rightarrow> 'r world option" where
  "barrier3 p s =
     (let blockSizeX = 2;
          blockSizeY = int16_t (int (sizeX p div 3));
          x0 = int16_t (int (sizeX p div 4) - blockSizeX sdiv 2);
          y0 = int16_t (int (sizeY p div 4) - blockSizeY sdiv 2);
          x1 = int16_t (x0 + blockSizeX);
          y1 = int16_t (y0 + blockSizeY)
      in Option.bind (drawBox x0 y0 x1 y1 s) (\<lambda>s.
     (let x0 = int16_t (x0 + int (sizeX p div 2));
          x1 = int16_t (x0 + blockSizeX)
      in Option.bind (drawBox x0 y0 x1 y1 s) (\<lambda>s.
     (let y0 = int16_t (y0 + int (sizeY p div 2));
          y1 = int16_t (y0 + blockSizeY)
      in Option.bind (drawBox x0 y0 x1 y1 s) (\<lambda>s.
     (let x0 = int16_t (x0 - int (sizeX p div 2));
          x1 = int16_t (x0 + blockSizeX)
      in Option.bind (drawBox x0 y0 x1 y1 s) (\<lambda>s.
     (let x0 = int16_t (int (sizeX p div 2) - blockSizeX sdiv 2);
          x1 = int16_t (x0 + blockSizeX);
          y0 = int16_t (int (sizeY p div 2) - blockSizeY sdiv 2);
          y1 = int16_t (y0 + blockSizeY)
      in drawBox x0 y0 x1 y1 s)))))))))"

text \<open>Selector 4: horizontal bar in constant location.\<close>

definition barrier4 :: "'r env \<Rightarrow> 'r world \<Rightarrow> 'r world option" where
  "barrier4 p s =
     (let minX = int16_t (int (sizeX p div 4));
          maxX = int16_t (minX + int (sizeX p div 2));
          minY = int16_t (int (sizeY p div 2) + int (sizeY p div 4));
          maxY = int16_t (minY + 2)
      in xLoop minX minY maxX maxY s)"

text \<open>
  Selector 5: floating islands. \<open>float radius = 3; unsigned margin = radius * 4;
  const unsigned numIslands = 12;\<close>
\<close>

definition radius5 :: nat where
  "radius5 = 3"

definition margin :: int where
  "margin = unsigned (int radius5 * 4)"

definition numIslands :: nat where
  "numIslands = 12"

text \<open>
  The lambda \<open>randomLoc\<close>. \<open>p.sizeX - margin\<close> is an \<open>unsigned\<close> subtraction. The draw for x
  is taken first (C++ leaves the order of the two arguments open).
\<close>

definition randomLoc :: "'r env \<Rightarrow> 'r \<Rightarrow> Coord \<times> 'r" where
  "randomLoc p r =
     (let (rx, r1) = randomUint p r margin (unsigned (int (sizeX p) - margin));
          (ry, r2) = randomUint p r1 margin (unsigned (int (sizeY p) - margin))
      in (Coord (int16_t rx) (int16_t ry), r2))"

text \<open>\<^verbatim>\<open>for (unsigned idx = 0; idx < numIslands; ++idx) centers[idx] = randomLoc();\<close>\<close>

fun drawCenters :: "'r env \<Rightarrow> nat \<Rightarrow> 'r \<Rightarrow> Coord list \<times> 'r" where
  "drawCenters p 0 r = ([], r)"
| "drawCenters p (Suc n) r =
     (let (c, r1) = randomLoc p r;
          (cs, r2) = drawCenters p n r1
      in (c # cs, r2))"

text \<open>
  The value of \<open>placementValid\<close> after the two loops over \<open>a\<close> and \<open>b\<close>: it starts true and
  is set to false by every pair with \<open>(centers[a] - centers[b]).length() < margin\<close>.
\<close>

definition placementValid :: "Coord list \<Rightarrow> bool" where
  "placementValid centers =
     list_all (\<lambda>a. list_all (\<lambda>b. \<not> length_less (coord_sub (centers ! a) (centers ! b)) margin)
                              [a + 1 ..< numIslands])
              [0 ..< numIslands - 1]"

text \<open>\<^verbatim>\<open>while ( ! placementValid) { ... }\<close>: no bound on the number of rounds.\<close>

partial_function (option) placementLoop :: "'r env \<Rightarrow> 'r \<Rightarrow> (Coord list \<times> 'r) option" where
  "placementLoop p r =
     (let (centers, r1) = drawCenters p numIslands r
      in if placementValid centers then Some (centers, r1) else placementLoop p r1)"

declare placementLoop.simps [code]

text \<open>One round of the last loop of selector 5: record the centre, then visit around it.\<close>

definition stampIsland :: "'r env \<Rightarrow> Coord \<Rightarrow> 'r world \<Rightarrow> 'r world" where
  "stampIsland p c s =
     fold markCell (visitNeighborhood p c radius5) (s\<lparr>barrierCenters := barrierCenters s @ [c]\<rparr>)"

definition barrier5 :: "'r env \<Rightarrow> 'r world \<Rightarrow> 'r world option" where
  "barrier5 p s =
     Option.bind (placementLoop p (rng s)) (\<lambda>(centers, r1).
       Some (fold (\<lambda>idx. stampIsland p (centers ! idx)) [0 ..< numIslands] (s\<lparr>rng := r1\<rparr>)))"

text \<open>
  Selector 6: spots. \<open>unsigned numberOfLocations = 5; float radius = 5.0;\<close> and
  \<open>unsigned verticalSliceSize = p.sizeY / (numberOfLocations + 1);\<close>
\<close>

definition numberOfLocations :: nat where
  "numberOfLocations = 5"

definition radius6 :: nat where
  "radius6 = 5"

definition verticalSliceSize :: "'r env \<Rightarrow> int" where
  "verticalSliceSize p = unsigned (int (sizeY p)) div unsigned (int numberOfLocations + 1)"

text \<open>One round of the loop over \<open>n\<close>: visit around \<open>loc\<close>, then record it as a centre.\<close>

definition stampSpot :: "'r env \<Rightarrow> nat \<Rightarrow> 'r world \<Rightarrow> 'r world" where
  "stampSpot p n s =
     (let loc = Coord (int16_t (int (sizeX p div 2))) (int16_t (unsigned (int n * verticalSliceSize p)));
          s1 = fold markCell (visitNeighborhood p loc radius6) s
      in s1\<lparr>barrierCenters := barrierCenters s1 @ [loc]\<rparr>)"

definition barrier6 :: "'r env \<Rightarrow> 'r world \<Rightarrow> 'r world option" where
  "barrier6 p s = Some (fold (stampSpot p) [1 ..< numberOfLocations + 1] s)"

text \<open>
  How a call ends: it returns, or \<open>assert(false)\<close> stops the process; either way with the
  state reached. A call that never ends has no outcome (\<open>None\<close>).
\<close>

datatype 'r outcome = Returned "'r world" | AssertFailed "'r world"

definition createBarrier :: "'r env \<Rightarrow> nat \<Rightarrow> 'r world \<Rightarrow> 'r outcome option" where
  "createBarrier p barrierType s0 =
     (let s = s0\<lparr>barrierLocations := [], barrierCenters := []\<rparr>
      in if barrierType = 0 then Some (Returned s)
         else if barrierType = 1 then map_option Returned (barrier1 p s)
         else if barrierType = 2 then map_option Returned (barrier2 p s)
         else if barrierType = 3 then map_option Returned (barrier3 p s)
         else if barrierType = 4 then map_option Returned (barrier4 p s)
         else if barrierType = 5 then map_option Returned (barrier5 p s)
         else if barrierType = 6 then map_option Returned (barrier6 p s)
         else Some (AssertFailed s))"

section \<open>Vocabulary of the properties\<close>

text \<open>The cells of the rectangle \<open>[minX, maxX] \<times> [minY, maxY]\<close>, column by column.\<close>

definition boxCells :: "int \<Rightarrow> int \<Rightarrow> int \<Rightarrow> int \<Rightarrow> Coord list" where
  "boxCells minX minY maxX maxY = concat (map (\<lambda>x. map (Coord x) [minY..maxY]) [minX..maxX])"

text \<open>The five blocks of selector 3, in the order drawn.\<close>

definition blocks3 :: "nat \<Rightarrow> nat \<Rightarrow> Coord list list" where
  "blocks3 w h =
     (let bx = 2; bh = int (w div 3);
          xa = int (w div 4) - 1; ya = int (h div 4) - bh div 2;
          xb = xa + int (w div 2); yb = ya + int (h div 2);
          xc = int (w div 2) - 1; yc = int (h div 2) - bh div 2
      in [boxCells xa ya (xa + bx) (ya + bh),
          boxCells xb ya (xb + bx) (ya + bh),
          boxCells xb yb (xb + bx) (yb + bh),
          boxCells xa yb (xa + bx) (yb + bh),
          boxCells xc yc (xc + bx) (yc + bh)])"

text \<open>
  \<open>marksOnly s s'\<close>: from \<open>s\<close> to \<open>s'\<close> the grid has received \<open>set(c, BARRIER)\<close> for a
  sequence of coordinates, and exactly that sequence has been appended to
  \<open>barrierLocations\<close>.
\<close>

definition marksOnly :: "'r world \<Rightarrow> 'r world \<Rightarrow> bool" where
  "marksOnly s s' =
     (\<exists>cs. barrierLocations s' = barrierLocations s @ cs \<and>
           setLog s' = setLog s @ map (\<lambda>c. (c, BARRIER)) cs \<and>
           cells s' = (\<lambda>c. if c \<in> set cs then BARRIER else cells s c))"

text \<open>A random source that keeps its contract: a draw lies between the two bounds given.\<close>

definition drawsInRange :: "'r env \<Rightarrow> bool" where
  "drawsInRange p =
     (\<forall>r lo hi. lo \<le> hi \<longrightarrow> lo \<le> fst (randomUint p r lo hi) \<and> fst (randomUint p r lo hi) \<le> hi)"

text \<open>Where selector 5 asks for its centres: at least \<open>margin\<close> away from every edge.\<close>

definition inMargin :: "'r env \<Rightarrow> Coord \<Rightarrow> bool" where
  "inMargin p c =
     (margin \<le> coord_x c \<and> coord_x c \<le> int (sizeX p) - margin \<and>
      margin \<le> coord_y c \<and> coord_y c \<le> int (sizeY p) - margin)"

text \<open>The centre of the \<open>n\<close>-th spot of selector 6, as the loop computes it.\<close>

definition spotLoc :: "'r env \<Rightarrow> nat \<Rightarrow> Coord" where
  "spotLoc p n =
     Coord (int16_t (int (sizeX p div 2))) (int16_t (unsigned (int n * verticalSliceSize p)))"

text \<open>A coordinate of the grid: within \<open>[0, sizeX) \<times> [0, sizeY)\<close>.\<close>

definition inGrid :: "'r env \<Rightarrow> Coord \<Rightarrow> bool" where
  "inGrid p c =
     (0 \<le> coord_x c \<and> coord_x c < int (sizeX p) \<and> 0 \<le> coord_y c \<and> coord_y c < int (sizeY p))"

text \<open>
  The grid is large enough for the fixed proportions of a layout: for selectors 1, 3 and 4
  the corners of every rectangle drawn lie in the grid; for selectors 5 and 6 the
  neighbourhood visitor stays in the grid. Selector 2 is left out.
\<close>

definition layoutFits :: "'r env \<Rightarrow> nat \<Rightarrow> bool" where
  "layoutFits p t =
     (let w = sizeX p; h = sizeY p
      in if t = 0 then True
         else if t = 1 then w div 2 + 1 < w \<and> h div 4 + h div 2 < h
         else if t = 3 then 1 \<le> w div 4 \<and> w div 4 + w div 2 + 1 < w \<and>
                            (w div 3) div 2 \<le> h div 4 \<and>
                            h div 4 + h div 2 + w div 3 < h + (w div 3) div 2
         else if t = 4 then w div 4 + w div 2 < w \<and> h div 2 + h div 4 + 2 < h
         else if t = 5 \<or> t = 6 then (\<forall>c r. list_all (inGrid p) (visitNeighborhood p c r))
         else False)"

text \<open>The Euclidean distance of two coordinates, without any wrap-around.\<close>

definition distance :: "Coord \<Rightarrow> Coord \<Rightarrow> real" where
  "distance a b = sqrt (real_of_int ((coord_x a - coord_x b)\<^sup>2 + (coord_y a - coord_y b)\<^sup>2))"

text \<open>
  Concrete collaborators for evaluating the program: a world with every cell empty, a
  random source that always draws the lower bound, one that replays a script of draws
  (and draws the lower bound for an entry outside the bounds, or once the script is used
  up), and a visitor that calls back on the centre and on its four neighbours at the given
  radius.
\<close>

definition emptyWorld :: "'r \<Rightarrow> 'r world" where
  "emptyWorld r =
     \<lparr>cells = (\<lambda>_. EMPTY), setLog = [], barrierLocations = [], barrierCenters = [], rng = r\<rparr>"

definition lowestDraw :: "unit \<Rightarrow> int \<Rightarrow> int \<Rightarrow> int \<times> unit" where
  "lowestDraw r lo hi = (lo, r)"

fun scriptedDraw :: "int list \<Rightarrow> int \<Rightarrow> int \<Rightarrow> int \<times> int list" where
  "scriptedDraw [] lo hi = (lo, [])"
| "scriptedDraw (d # ds) lo hi = (if lo \<le> d \<and> d \<le> hi then d else lo, ds)"

definition crossVisit :: "Coord \<Rightarrow> nat \<Rightarrow> Coord list" where
  "crossVisit c r =
     [Coord (coord_x c - int r) (coord_y c), Coord (coord_x c) (coord_y c - int r), c,
      Coord (coord_x c) (coord_y c + int r), Coord (coord_x c + int r) (coord_y c)]"

definition testEnv :: "nat \<Rightarrow> nat \<Rightarrow> unit env" where
  "testEnv w h = \<lparr>sizeX = w, sizeY = h, randomUint = lowestDraw, visitNeighborhood = crossVisit\<rparr>"

definition scriptedEnv :: "nat \<Rightarrow> nat \<Rightarrow> (int list) env" where
  "scriptedEnv w h = \<lparr>sizeX = w, sizeY = h, randomUint = scriptedDraw, visitNeighborhood = crossVisit\<rparr>"

text \<open>
  A script of draws for selector 5 on a 128 by 128 grid: a first round whose second centre
  is 5 cells from the first, then a round of twelve centres on a 4 by 3 lattice.
\<close>

definition islandCenters :: "Coord list" where
  "islandCenters =
     [Coord 20 20, Coord 50 20, Coord 80 20, Coord 110 20,
      Coord 20 60, Coord 50 60, Coord 80 60, Coord 110 60,
      Coord 20 100, Coord 50 100, Coord 80 100, Coord 110 100]"

definition islandScript :: "int list" where
  "islandScript =
     [20, 20, 25, 20, 80, 20, 110, 20, 20, 60, 50, 60, 80, 60, 110, 60,
      20, 100, 50, 100, 80, 100, 110, 100] @
     concat (map (\<lambda>c. [coord_x c, coord_y c]) islandCenters)"

section \<open>The loops\<close>

lemma int16_t_id: "- 32768 \<le> v \<Longrightarrow> v < 32768 \<Longrightarrow> int16_t v = v"
  by (simp add: int16_t_def)

lemmas yLoop_induct [consumes 1, case_names step] =
  yLoop.raw_induct [where xa = "(((x, y), maxY), s)", simplified, rotated] for x y maxY s

lemmas xLoop_induct [consumes 1, case_names step] =
  xLoop.raw_induct [where xa = "((((x, minY), maxX), maxY), s)", simplified, rotated]
  for x minY maxX maxY s

text \<open>Whatever the bounds, a loop that ends has only marked cells.\<close>

lemma yLoop_marks:
  "yLoop x y maxY s = Some s' \<Longrightarrow> \<exists>cs. s' = fold markCell cs s"
proof (induct x y maxY s s' rule: yLoop_induct)
  case (step yLoop' x y maxY s s')
  show ?case
  proof (cases "y \<le> maxY")
    case True
    with step obtain cs where "s' = fold markCell cs (markCell (Coord x y) s)" by fastforce
    then have "s' = fold markCell (Coord x y # cs) s" by simp
    then show ?thesis by blast
  next
    case False
    with step have "s' = fold markCell [] s" by simp
    then show ?thesis by blast
  qed
qed

lemma xLoop_marks:
  "xLoop x minY maxX maxY s = Some s' \<Longrightarrow> \<exists>cs. s' = fold markCell cs s"
proof (induct x minY maxX maxY s s' rule: xLoop_induct)
  case (step xLoop' x minY maxX maxY s s')
  show ?case
  proof (cases "x \<le> maxX")
    case True
    with step(2) obtain s1 where s1: "yLoop x minY maxY s = Some s1"
      and rest: "xLoop' (int16_t (x + 1)) minY maxX maxY s1 = Some s'"
      by (auto simp: bind_eq_Some_conv)
    from yLoop_marks [OF s1] obtain cs1 where cs1: "s1 = fold markCell cs1 s" by blast
    from step(1) [OF rest] obtain cs2 where "s' = fold markCell cs2 s1" by blast
    with cs1 have "s' = fold markCell (cs1 @ cs2) s" by simp
    then show ?thesis by blast
  next
    case False
    with step have "s' = fold markCell [] s" by simp
    then show ?thesis by blast
  qed
qed

text \<open>Below 32767 the counters never wrap, and the loops mark the rectangle.\<close>

lemma yLoop_closed:
  "maxY < 32767 \<Longrightarrow> - 32768 \<le> y \<Longrightarrow>
   yLoop x y maxY s = Some (fold markCell (map (Coord x) [y..maxY]) s)"
proof (induction "nat (maxY + 1 - y)" arbitrary: y s)
  case 0
  then have "\<not> y \<le> maxY" by simp
  then show ?case by (subst yLoop.simps) simp
next
  case (Suc n)
  then have le: "y \<le> maxY" by simp
  have nx: "int16_t (y + 1) = y + 1" using le Suc.prems by (simp add: int16_t_id)
  have "yLoop x (y + 1) maxY (markCell (Coord x y) s)
        = Some (fold markCell (map (Coord x) [y + 1..maxY]) (markCell (Coord x y) s))"
    by (rule Suc.hyps) (use Suc.hyps(2) Suc.prems in auto)
  then show ?case using le nx
    by (subst yLoop.simps) (simp add: upto_rec1 [of y maxY])
qed

lemma xLoop_closed:
  "maxX < 32767 \<Longrightarrow> maxY < 32767 \<Longrightarrow> - 32768 \<le> x \<Longrightarrow> - 32768 \<le> minY \<Longrightarrow>
   xLoop x minY maxX maxY (s :: 'r world) = Some (fold markCell (boxCells x minY maxX maxY) s)"
proof (induction "nat (maxX + 1 - x)" arbitrary: x s)
  case 0
  then have "\<not> x \<le> maxX" by simp
  then show ?case by (subst xLoop.simps) (simp add: boxCells_def)
next
  case (Suc n)
  then have le: "x \<le> maxX" by simp
  have nx: "int16_t (x + 1) = x + 1" using le Suc.prems by (simp add: int16_t_id)
  have rest: "xLoop (x + 1) minY maxX maxY s1
        = Some (fold markCell (boxCells (x + 1) minY maxX maxY) s1)" for s1 :: "'r world"
    by (rule Suc.hyps) (use Suc.hyps(2) Suc.prems in auto)
  show ?case using le nx Suc.prems
    by (subst xLoop.simps) (simp add: yLoop_closed rest boxCells_def upto_rec1 [of x maxX])
qed

text \<open>
  The bound matters: a loop whose upper bound is 32767, the largest
  \<open>int16_t\<close>, is entered again after every round, and never ends.
\<close>

lemma int16_t_le: "int16_t v \<le> 32767"
proof -
  have "(v + 32768) mod 65536 < 65536" by simp
  then show ?thesis unfolding int16_t_def by linarith
qed

lemma yLoop_Some_bound:
  "yLoop x y maxY s = Some s' \<Longrightarrow> maxY < 32767 \<or> maxY < y"
proof (induct x y maxY s s' rule: yLoop_induct)
  case (step yLoop' x y maxY s s')
  show ?case
  proof (cases "y \<le> maxY")
    case True
    with step(2) have "yLoop' x (int16_t (y + 1)) maxY (markCell (Coord x y) s) = Some s'"
      by simp
    then have "maxY < 32767 \<or> maxY < int16_t (y + 1)" by (rule step(1))
    with int16_t_le [of "y + 1"] show ?thesis by linarith
  next
    case False
    then show ?thesis by simp
  qed
qed

lemma yLoop_never_ends: "y \<le> 32767 \<Longrightarrow> yLoop x y 32767 s = None"
  using yLoop_Some_bound [of x y 32767 s] by (cases "yLoop x y 32767 s") auto

section \<open>What marking cells does to the state\<close>

lemma markCell_simps:
  "barrierLocations (markCell c s) = barrierLocations s @ [c]"
  "barrierCenters (markCell c s) = barrierCenters s"
  "rng (markCell c s) = rng s"
  "setLog (markCell c s) = setLog s @ [(c, BARRIER)]"
  "cells (markCell c s) = (cells s)(c := BARRIER)"
  by (simp_all add: markCell_def grid_set_def Let_def)

lemma fold_markCell_locations:
  "barrierLocations (fold markCell cs s) = barrierLocations s @ cs"
  by (induction cs arbitrary: s) (simp_all add: markCell_simps)

lemma fold_markCell_centers:
  "barrierCenters (fold markCell cs s) = barrierCenters s"
  by (induction cs arbitrary: s) (simp_all add: markCell_simps)

lemma fold_markCell_rng:
  "rng (fold markCell cs s) = rng s"
  by (induction cs arbitrary: s) (simp_all add: markCell_simps)

lemma fold_markCell_setLog:
  "setLog (fold markCell cs s) = setLog s @ map (\<lambda>c. (c, BARRIER)) cs"
  by (induction cs arbitrary: s) (simp_all add: markCell_simps)

lemma fold_markCell_cells:
  "cells (fold markCell cs s) c = (if c \<in> set cs then BARRIER else cells s c)"
  by (induction cs arbitrary: s) (simp_all add: markCell_simps)

lemma length_boxCells:
  "length (boxCells minX minY maxX maxY) = nat (maxX - minX + 1) * nat (maxY - minY + 1)"
proof -
  have "length (concat (map (\<lambda>x. map (Coord x) [minY..maxY]) xs)) = length xs * nat (maxY - minY + 1)" for xs
    by (induction xs) simp_all
  then show ?thesis by (simp add: boxCells_def)
qed

lemma set_boxCells:
  "set (boxCells minX minY maxX maxY) =
     {c. minX \<le> coord_x c \<and> coord_x c \<le> maxX \<and> minY \<le> coord_y c \<and> coord_y c \<le> maxY}"
proof -
  have "(c \<in> set (boxCells minX minY maxX maxY)) =
        (minX \<le> coord_x c \<and> coord_x c \<le> maxX \<and> minY \<le> coord_y c \<and> coord_y c \<le> maxY)" for c
    by (cases c) (force simp: boxCells_def)
  then show ?thesis by blast
qed

lemma distinct_boxCells: "distinct (boxCells minX minY maxX maxY)"
proof -
  have "distinct xs \<Longrightarrow> distinct (concat (map (\<lambda>x. map (Coord x) [minY..maxY]) xs))" for xs
    by (induction xs) (auto simp: distinct_map inj_on_def)
  then show ?thesis by (simp add: boxCells_def)
qed

section \<open>The fixed layouts in closed form\<close>

lemma barrier1_closed:
  assumes "sizeX p \<le> 32767" "sizeY p \<le> 32767"
  shows "barrier1 p s = Some (fold markCell
           (boxCells (int (sizeX p div 2)) (int (sizeY p div 4))
                     (int (sizeX p div 2) + 1) (int (sizeY p div 4) + int (sizeY p div 2))) s)"
proof -
  have a: "int16_t (int (sizeX p div 2)) = int (sizeX p div 2)"
    by (rule int16_t_id) (use assms in simp_all)
  have b: "int16_t (int (sizeX p div 2) + 1) = int (sizeX p div 2) + 1"
    by (rule int16_t_id) (use assms in simp_all)
  have c: "int16_t (int (sizeY p div 4)) = int (sizeY p div 4)"
    by (rule int16_t_id) (use assms in simp_all)
  have d: "int16_t (int (sizeY p div 4) + int (sizeY p div 2)) = int (sizeY p div 4) + int (sizeY p div 2)"
    by (rule int16_t_id) (use assms in simp_all)
  show ?thesis
    unfolding barrier1_def Let_def a b c d
    by (rule xLoop_closed) (use assms in simp_all)
qed

lemma sdiv_2_nonneg: "0 \<le> a \<Longrightarrow> a sdiv 2 = a div (2::int)"
  by (simp add: signed_divide_int_def sgn_if)

lemma barrier4_closed:
  assumes "sizeX p \<le> 32767" "sizeY p \<le> 32767"
  shows "barrier4 p s = Some (fold markCell
           (boxCells (int (sizeX p div 4)) (int (sizeY p div 2) + int (sizeY p div 4))
                     (int (sizeX p div 4) + int (sizeX p div 2))
                     (int (sizeY p div 2) + int (sizeY p div 4) + 2)) s)"
proof -
  have a: "int16_t (int (sizeX p div 4)) = int (sizeX p div 4)"
    by (rule int16_t_id) (use assms in simp_all)
  have b: "int16_t (int (sizeX p div 4) + int (sizeX p div 2)) = int (sizeX p div 4) + int (sizeX p div 2)"
    by (rule int16_t_id) (use assms in simp_all)
  have c: "int16_t (int (sizeY p div 2) + int (sizeY p div 4)) = int (sizeY p div 2) + int (sizeY p div 4)"
    by (rule int16_t_id) (use assms in simp_all)
  have d: "int16_t (int (sizeY p div 2) + int (sizeY p div 4) + 2) = int (sizeY p div 2) + int (sizeY p div 4) + 2"
    by (rule int16_t_id) (use assms in simp_all)
  show ?thesis
    unfolding barrier4_def Let_def a b c d
    by (rule xLoop_closed) (use assms in simp_all)
qed

lemma drawBox_closed:
  "- 32768 \<le> x0 \<and> - 32768 \<le> y0 \<and> x1 < 32767 \<and> y1 < 32767 \<Longrightarrow>
   drawBox x0 y0 x1 y1 s = Some (fold markCell (boxCells x0 y0 x1 y1) s)"
  unfolding drawBox_def by (rule xLoop_closed) simp_all

lemma int16_t_idI: "- 32768 \<le> v \<and> v < 32768 \<Longrightarrow> int16_t v = v"
  by (simp add: int16_t_def)

lemma barrier3_closed:
  assumes "sizeX p \<le> 32767" "sizeY p \<le> 32767"
  shows "barrier3 p s = Some (fold markCell (concat (blocks3 (sizeX p) (sizeY p))) s)"
proof -
  define w4 w2 w3 h4 h2 where "w4 = int (sizeX p div 4)" and "w2 = int (sizeX p div 2)"
    and "w3 = int (sizeX p div 3)" and "h4 = int (sizeY p div 4)" and "h2 = int (sizeY p div 2)"
  note defs = w4_def w2_def w3_def h4_def h2_def
  have bounds: "0 \<le> w4" "w4 \<le> 8191" "0 \<le> w2" "w2 \<le> 16383" "0 \<le> w3" "w3 \<le> 10922"
     "0 \<le> h4" "h4 \<le> 8191" "0 \<le> h2" "h2 \<le> 16383"
    using assms by (simp_all add: defs)
  have w6: "0 \<le> w3 div 2" "w3 div 2 \<le> 5461" "w3 \<le> 2 * (w3 div 2) + 1"
    using bounds by simp_all
  note b = bounds w6
  have e0: "(2::int) sdiv 2 = 1" by (simp add: signed_divide_int_def)
  have e1: "int16_t w3 = w3" by (rule int16_t_idI) (use b in simp)
  have e2: "w3 sdiv 2 = w3 div 2" by (rule sdiv_2_nonneg) (use b in simp)
  have e3: "int16_t (w4 - 1) = w4 - 1" by (rule int16_t_idI) (use b in simp)
  have e4: "int16_t (h4 - w3 div 2) = h4 - w3 div 2" by (rule int16_t_idI) (use b in simp)
  have e5: "int16_t (w4 - 1 + 2) = w4 - 1 + 2" by (rule int16_t_idI) (use b in simp)
  have e6: "int16_t (h4 - w3 div 2 + w3) = h4 - w3 div 2 + w3" by (rule int16_t_idI) (use b in simp)
  have e7: "int16_t (w4 - 1 + w2) = w4 - 1 + w2" by (rule int16_t_idI) (use b in simp)
  have e8: "int16_t (w4 - 1 + w2 + 2) = w4 - 1 + w2 + 2" by (rule int16_t_idI) (use b in simp)
  have e9: "int16_t (h4 - w3 div 2 + h2) = h4 - w3 div 2 + h2" by (rule int16_t_idI) (use b in simp)
  have e10: "int16_t (h4 - w3 div 2 + h2 + w3) = h4 - w3 div 2 + h2 + w3"
    by (rule int16_t_idI) (use b in simp)
  have e11: "int16_t (w4 - 1 + w2 - w2) = w4 - 1" by (simp add: e3)
  have e12: "int16_t (w2 - 1) = w2 - 1" by (rule int16_t_idI) (use b in simp)
  have e13: "int16_t (w2 - 1 + 2) = w2 - 1 + 2" by (rule int16_t_idI) (use b in simp)
  have e14: "int16_t (h2 - w3 div 2) = h2 - w3 div 2" by (rule int16_t_idI) (use b in simp)
  have e15: "int16_t (h2 - w3 div 2 + w3) = h2 - w3 div 2 + w3" by (rule int16_t_idI) (use b in simp)
  have d1: "drawBox (w4 - 1) (h4 - w3 div 2) (w4 - 1 + 2) (h4 - w3 div 2 + w3) s1 =
      Some (fold markCell (boxCells (w4 - 1) (h4 - w3 div 2) (w4 - 1 + 2) (h4 - w3 div 2 + w3)) s1)"
    for s1 :: "'a world"
    by (rule drawBox_closed) (use b in simp)
  have d2: "drawBox (w4 - 1 + w2) (h4 - w3 div 2) (w4 - 1 + w2 + 2) (h4 - w3 div 2 + w3) s1 =
      Some (fold markCell (boxCells (w4 - 1 + w2) (h4 - w3 div 2) (w4 - 1 + w2 + 2) (h4 - w3 div 2 + w3)) s1)"
    for s1 :: "'a world"
    by (rule drawBox_closed) (use b in simp)
  have d3: "drawBox (w4 - 1 + w2) (h4 - w3 div 2 + h2) (w4 - 1 + w2 + 2) (h4 - w3 div 2 + h2 + w3) s1 =
      Some (fold markCell (boxCells (w4 - 1 + w2) (h4 - w3 div 2 + h2) (w4 - 1 + w2 + 2) (h4 - w3 div 2 + h2 + w3)) s1)"
    for s1 :: "'a world"
    by (rule drawBox_closed) (use b in simp)
  have d4: "drawBox (w4 - 1) (h4 - w3 div 2 + h2) (w4 - 1 + 2) (h4 - w3 div 2 + h2 + w3) s1 =
      Some (fold markCell (boxCells (w4 - 1) (h4 - w3 div 2 + h2) (w4 - 1 + 2) (h4 - w3 div 2 + h2 + w3)) s1)"
    for s1 :: "'a world"
    by (rule drawBox_closed) (use b in simp)
  have d5: "drawBox (w2 - 1) (h2 - w3 div 2) (w2 - 1 + 2) (h2 - w3 div 2 + w3) s1 =
      Some (fold markCell (boxCells (w2 - 1) (h2 - w3 div 2) (w2 - 1 + 2) (h2 - w3 div 2 + w3)) s1)"
    for s1 :: "'a world"
    by (rule drawBox_closed) (use b in simp)
  have "barrier3 p s = Some (fold markCell (concat
      [boxCells (w4 - 1) (h4 - w3 div 2) (w4 - 1 + 2) (h4 - w3 div 2 + w3),
       boxCells (w4 - 1 + w2) (h4 - w3 div 2) (w4 - 1 + w2 + 2) (h4 - w3 div 2 + w3),
       boxCells (w4 - 1 + w2) (h4 - w3 div 2 + h2) (w4 - 1 + w2 + 2) (h4 - w3 div 2 + h2 + w3),
       boxCells (w4 - 1) (h4 - w3 div 2 + h2) (w4 - 1 + 2) (h4 - w3 div 2 + h2 + w3),
       boxCells (w2 - 1) (h2 - w3 div 2) (w2 - 1 + 2) (h2 - w3 div 2 + w3)]) s)"
    unfolding barrier3_def Let_def defs [symmetric] e0 e1 e2 e3 e4 e5 e6 e7 e8 e9 e10 e11 e12 e13 e14 e15
      d1 d2 d3 d4 d5 Option.bind.simps
    by simp
  then show ?thesis
    by (simp add: blocks3_def Let_def defs)
qed

section \<open>The placement loop of selector 5\<close>

lemma length_less_code [code]:
  "length_less c m = (0 < m \<and> coord_x c * coord_x c + coord_y c * coord_y c < m * m)"
proof (cases "0 < m")
  case True
  let ?n = "coord_x c * coord_x c + coord_y c * coord_y c"
  have n0: "0 \<le> ?n" by simp
  have "real_of_int m = sqrt (real_of_int (m * m))"
    using True by (simp add: real_sqrt_mult)
  then have "(coord_length c < real_of_int m) = (sqrt (real_of_int ?n) < sqrt (real_of_int (m * m)))"
    by (simp add: coord_length_def)
  also have "\<dots> = (real_of_int ?n < real_of_int (m * m))"
    by (rule real_sqrt_less_iff)
  also have "\<dots> = (?n < m * m)"
    by (rule of_int_less_iff)
  finally show ?thesis using True by (simp add: length_less_def)
next
  case False
  have "0 \<le> coord_length c" by (simp add: coord_length_def)
  with False show ?thesis by (simp add: length_less_def)
qed

lemma margin_eq: "margin = 12"
  by (simp add: margin_def radius5_def unsigned_def)

lemma distance_ge_iff:
  "(real_of_int m \<le> distance a b) =
     (m \<le> 0 \<or> m * m \<le> (coord_x a - coord_x b)\<^sup>2 + (coord_y a - coord_y b)\<^sup>2)"
proof (cases "0 < m")
  case True
  let ?n = "(coord_x a - coord_x b)\<^sup>2 + (coord_y a - coord_y b)\<^sup>2"
  have "real_of_int m = sqrt (real_of_int (m * m))"
    using True by (simp add: real_sqrt_mult)
  then have "(real_of_int m \<le> distance a b) = (sqrt (real_of_int (m * m)) \<le> sqrt (real_of_int ?n))"
    by (simp add: distance_def)
  also have "\<dots> = (real_of_int (m * m) \<le> real_of_int ?n)"
    by (rule real_sqrt_le_iff)
  also have "\<dots> = (m * m \<le> ?n)"
    by (rule of_int_le_iff)
  finally show ?thesis using True by simp
next
  case False
  have "0 \<le> distance a b" by (simp add: distance_def)
  with False show ?thesis by (simp add: order_trans [of "real_of_int m" 0])
qed

text \<open>A wrapped difference that is not short comes from a true difference that is not short.\<close>

lemma square_ge_144: "12 \<le> \<bar>d\<bar> \<Longrightarrow> 144 \<le> d\<^sup>2" for d :: int
proof -
  assume "12 \<le> \<bar>d\<bar>"
  then have "\<bar>12\<bar> \<le> \<bar>d\<bar>" by simp
  then have "(12::int)\<^sup>2 \<le> d\<^sup>2" by (simp only: abs_le_square_iff)
  then show ?thesis by simp
qed

lemma not_short_unwrapped:
  assumes "\<not> length_less (coord_sub a b) margin"
  shows "real_of_int margin \<le> distance a b"
proof -
  let ?dx = "coord_x a - coord_x b" and ?dy = "coord_y a - coord_y b"
  from assms have w: "144 \<le> (int16_t ?dx)\<^sup>2 + (int16_t ?dy)\<^sup>2"
    by (simp add: length_less_code margin_eq coord_sub_def power2_eq_square)
  have "144 \<le> ?dx\<^sup>2 + ?dy\<^sup>2"
  proof (cases "12 \<le> \<bar>?dx\<bar> \<or> 12 \<le> \<bar>?dy\<bar>")
    case True
    then show ?thesis
    proof
      assume "12 \<le> \<bar>?dx\<bar>"
      then have "144 \<le> ?dx\<^sup>2" by (rule square_ge_144)
      moreover have "0 \<le> ?dy\<^sup>2" by simp
      ultimately show ?thesis by linarith
    next
      assume "12 \<le> \<bar>?dy\<bar>"
      then have "144 \<le> ?dy\<^sup>2" by (rule square_ge_144)
      moreover have "0 \<le> ?dx\<^sup>2" by simp
      ultimately show ?thesis by linarith
    qed
  next
    case False
    then have "int16_t ?dx = ?dx" "int16_t ?dy = ?dy"
      by (auto intro!: int16_t_id)
    with w show ?thesis by simp
  qed
  then show ?thesis using distance_ge_iff [of 12 a b] by (simp add: margin_eq)
qed

lemma distance_commute: "distance a b = distance b a"
  by (simp add: distance_def power2_commute)

lemma placementValid_pairs:
  assumes "placementValid cs" "i < numIslands" "j < numIslands" "i \<noteq> j"
  shows "real_of_int margin \<le> distance (cs ! i) (cs ! j)"
proof -
  have lt: "real_of_int margin \<le> distance (cs ! a) (cs ! b)" if "a < b" "b < numIslands" for a b
  proof -
    from that have "a \<in> set [0 ..< numIslands - 1]" "b \<in> set [a + 1 ..< numIslands]" by auto
    with assms(1) have "\<not> length_less (coord_sub (cs ! a) (cs ! b)) margin"
      unfolding placementValid_def list_all_iff by blast
    then show ?thesis by (rule not_short_unwrapped)
  qed
  show ?thesis
  proof (cases "i < j")
    case True
    then show ?thesis using assms by (intro lt)
  next
    case False
    with assms have "j < i" by simp
    then have "real_of_int margin \<le> distance (cs ! j) (cs ! i)" using assms by (intro lt)
    then show ?thesis by (simp add: distance_commute)
  qed
qed

lemma length_drawCenters: "length (fst (drawCenters p n r)) = n"
  by (induction n arbitrary: r) (simp_all add: split_def Let_def)

lemmas placementLoop_induct [consumes 1, case_names step] = placementLoop.raw_induct [rotated]

lemma placementLoop_Some:
  "placementLoop p r = Some res \<Longrightarrow>
   \<exists>r0. res = drawCenters p numIslands r0 \<and> placementValid (fst res)"
proof (induct p r res rule: placementLoop_induct)
  case (step loop p r res)
  show ?case
  proof (cases "placementValid (fst (drawCenters p numIslands r))")
    case True
    with step(2) have "res = drawCenters p numIslands r"
      by (simp add: split_def Let_def)
    with True show ?thesis by blast
  next
    case False
    with step(2) have "loop p (snd (drawCenters p numIslands r)) = Some res"
      by (simp add: split_def Let_def)
    then show ?thesis by (rule step(1))
  qed
qed

lemma placementLoop_None:
  assumes "\<And>r. \<not> placementValid (fst (drawCenters p numIslands r))"
  shows "placementLoop p r = None"
proof (cases "placementLoop p r")
  case None
  then show ?thesis .
next
  case (Some res)
  from placementLoop_Some [OF this] assms show ?thesis by auto
qed

section \<open>Every variant only marks cells\<close>

lemma marksOnly_refl: "marksOnly s s"
  unfolding marksOnly_def by (rule exI [of _ "[]"]) simp

lemma marksOnly_trans:
  assumes "marksOnly s s1" "marksOnly s1 s2"
  shows "marksOnly s s2"
proof -
  from assms(1) obtain cs1 where 1: "barrierLocations s1 = barrierLocations s @ cs1"
    "setLog s1 = setLog s @ map (\<lambda>c. (c, BARRIER)) cs1"
    "cells s1 = (\<lambda>c. if c \<in> set cs1 then BARRIER else cells s c)"
    unfolding marksOnly_def by blast
  from assms(2) obtain cs2 where 2: "barrierLocations s2 = barrierLocations s1 @ cs2"
    "setLog s2 = setLog s1 @ map (\<lambda>c. (c, BARRIER)) cs2"
    "cells s2 = (\<lambda>c. if c \<in> set cs2 then BARRIER else cells s1 c)"
    unfolding marksOnly_def by blast
  show ?thesis
    unfolding marksOnly_def
    by (rule exI [of _ "cs1 @ cs2"]) (auto simp: 1 2)
qed

lemma marksOnly_fold: "marksOnly s (fold markCell cs s)"
  unfolding marksOnly_def
  by (rule exI [of _ cs])
    (auto simp: fold_markCell_locations fold_markCell_setLog fold_markCell_cells)

lemma marksOnly_other_fields:
  "marksOnly s (s\<lparr>barrierCenters := cs\<rparr>)" "marksOnly s (s\<lparr>rng := r\<rparr>)"
  "marksOnly s (s\<lparr>rng := r, barrierCenters := cs\<rparr>)"
  unfolding marksOnly_def by (rule exI [of _ "[]"], simp)+

lemma marksOnly_xLoop: "xLoop x minY maxX maxY s = Some s' \<Longrightarrow> marksOnly s s'"
  using xLoop_marks marksOnly_fold by blast

lemma marksOnly_drawBox: "drawBox x minY maxX maxY s = Some s' \<Longrightarrow> marksOnly s s'"
  unfolding drawBox_def by (rule marksOnly_xLoop)

lemma marksOnly_barrier1: "barrier1 p s = Some s' \<Longrightarrow> marksOnly s s'"
  unfolding barrier1_def Let_def by (rule marksOnly_xLoop)

lemma marksOnly_barrier2:
  assumes "barrier2 p s = Some s'"
  shows "marksOnly s s'"
proof -
  from assms obtain a b c d r cs
    where "xLoop a b c d (s\<lparr>rng := r, barrierCenters := cs\<rparr>) = Some s'"
    unfolding barrier2_def Let_def split_def by blast
  then have "marksOnly (s\<lparr>rng := r, barrierCenters := cs\<rparr>) s'" by (rule marksOnly_xLoop)
  with marksOnly_other_fields(3) show ?thesis by (rule marksOnly_trans)
qed

lemma marksOnly_barrier4: "barrier4 p s = Some s' \<Longrightarrow> marksOnly s s'"
  unfolding barrier4_def Let_def by (rule marksOnly_xLoop)

lemma marksOnly_bind_drawBox:
  assumes "Option.bind (drawBox a b c d s) k = Some s'"
    and "\<And>s1. k s1 = Some s' \<Longrightarrow> marksOnly s1 s'"
  shows "marksOnly s s'"
proof -
  from assms(1) obtain s1 where 1: "drawBox a b c d s = Some s1" and 2: "k s1 = Some s'"
    by (auto simp: bind_eq_Some_conv)
  from marksOnly_drawBox [OF 1] assms(2) [OF 2] show ?thesis by (rule marksOnly_trans)
qed

lemma marksOnly_barrier3: "barrier3 p s = Some s' \<Longrightarrow> marksOnly s s'"
  unfolding barrier3_def Let_def
  by (erule marksOnly_bind_drawBox)+ (erule marksOnly_drawBox)

lemma marksOnly_stampIsland: "marksOnly s (stampIsland p c s)"
  unfolding stampIsland_def
  by (rule marksOnly_trans [OF marksOnly_other_fields(1) marksOnly_fold])

lemma marksOnly_fold_gen:
  "(\<And>x s. marksOnly s (g x s)) \<Longrightarrow> marksOnly s (fold g xs s)"
proof (induction xs arbitrary: s)
  case Nil
  show ?case by (simp add: marksOnly_refl)
next
  case (Cons x xs)
  have "marksOnly s (g x s)" by (rule Cons.prems)
  moreover have "marksOnly (g x s) (fold g xs (g x s))" by (rule Cons.IH) (rule Cons.prems)
  ultimately show ?case by (simp add: marksOnly_trans)
qed

lemma marksOnly_barrier5:
  assumes "barrier5 p s = Some s'"
  shows "marksOnly s s'"
proof -
  from assms obtain centers r1
    where s': "s' = fold (\<lambda>idx. stampIsland p (centers ! idx)) [0 ..< numIslands] (s\<lparr>rng := r1\<rparr>)"
    unfolding barrier5_def bind_eq_Some_conv by auto
  have "marksOnly (s\<lparr>rng := r1\<rparr>) s'"
    unfolding s' by (rule marksOnly_fold_gen) (rule marksOnly_stampIsland)
  with marksOnly_other_fields(2) show ?thesis by (rule marksOnly_trans)
qed

lemma marksOnly_stampSpot: "marksOnly s (stampSpot p n s)"
  unfolding stampSpot_def Let_def
  by (rule marksOnly_trans [OF marksOnly_fold marksOnly_other_fields(1)])

lemma marksOnly_barrier6:
  assumes "barrier6 p s = Some s'"
  shows "marksOnly s s'"
proof -
  from assms have s': "s' = fold (stampSpot p) [1 ..< numberOfLocations + 1] s"
    by (simp add: barrier6_def)
  show ?thesis unfolding s' by (rule marksOnly_fold_gen) (rule marksOnly_stampSpot)
qed

lemma createBarrier_Returned:
  assumes "createBarrier p t s = Some (Returned s')"
  shows "t \<le> 6 \<and> marksOnly (s\<lparr>barrierLocations := [], barrierCenters := []\<rparr>) s'"
proof -
  let ?s = "s\<lparr>barrierLocations := [], barrierCenters := []\<rparr>"
  from assms have t: "t \<le> 6"
    by (auto simp: createBarrier_def Let_def split: if_splits)
  then consider "t = 0" | "t = 1" | "t = 2" | "t = 3" | "t = 4" | "t = 5" | "t = 6"
    by linarith
  then have "marksOnly ?s s'"
  proof cases
    case 1
    with assms show ?thesis by (simp add: createBarrier_def Let_def marksOnly_refl)
  next
    case 2
    with assms have "barrier1 p ?s = Some s'" by (auto simp: createBarrier_def Let_def)
    then show ?thesis by (rule marksOnly_barrier1)
  next
    case 3
    with assms have "barrier2 p ?s = Some s'" by (auto simp: createBarrier_def Let_def)
    then show ?thesis by (rule marksOnly_barrier2)
  next
    case 4
    with assms have "barrier3 p ?s = Some s'" by (auto simp: createBarrier_def Let_def)
    then show ?thesis by (rule marksOnly_barrier3)
  next
    case 5
    with assms have "barrier4 p ?s = Some s'" by (auto simp: createBarrier_def Let_def)
    then show ?thesis by (rule marksOnly_barrier4)
  next
    case 6
    with assms have "barrier5 p ?s = Some s'" by (auto simp: createBarrier_def Let_def)
    then show ?thesis by (rule marksOnly_barrier5)
  next
    case 7
    with assms have "barrier6 p ?s = Some s'" by (auto simp: createBarrier_def Let_def)
    then show ?thesis by (rule marksOnly_barrier6)
  qed
  with t show ?thesis by simp
qed

section \<open>The calls in closed form\<close>

lemma createBarrier_1:
  "sizeX p \<le> 32767 \<Longrightarrow> sizeY p \<le> 32767 \<Longrightarrow>
   createBarrier p 1 s = Some (Returned (fold markCell
     (boxCells (int (sizeX p div 2)) (int (sizeY p div 4))
               (int (sizeX p div 2) + 1) (int (sizeY p div 4) + int (sizeY p div 2)))
     (s\<lparr>barrierLocations := [], barrierCenters := []\<rparr>)))"
  by (simp add: createBarrier_def Let_def barrier1_closed)

lemma createBarrier_3:
  "sizeX p \<le> 32767 \<Longrightarrow> sizeY p \<le> 32767 \<Longrightarrow>
   createBarrier p 3 s = Some (Returned (fold markCell (concat (blocks3 (sizeX p) (sizeY p)))
     (s\<lparr>barrierLocations := [], barrierCenters := []\<rparr>)))"
  by (simp add: createBarrier_def Let_def barrier3_closed)

lemma createBarrier_4:
  "sizeX p \<le> 32767 \<Longrightarrow> sizeY p \<le> 32767 \<Longrightarrow>
   createBarrier p 4 s = Some (Returned (fold markCell
     (boxCells (int (sizeX p div 4)) (int (sizeY p div 2) + int (sizeY p div 4))
               (int (sizeX p div 4) + int (sizeX p div 2))
               (int (sizeY p div 2) + int (sizeY p div 4) + 2))
     (s\<lparr>barrierLocations := [], barrierCenters := []\<rparr>)))"
  by (simp add: createBarrier_def Let_def barrier4_closed)

lemma testEnv_simps:
  "sizeX (testEnv w h) = w" "sizeY (testEnv w h) = h"
  "randomUint (testEnv w h) = lowestDraw" "visitNeighborhood (testEnv w h) = crossVisit"
  by (simp_all add: testEnv_def)

lemma emptyWorld_simps:
  "cells (emptyWorld r) = (\<lambda>_. EMPTY)" "setLog (emptyWorld r) = []"
  "barrierLocations (emptyWorld r) = []" "barrierCenters (emptyWorld r) = []"
  "rng (emptyWorld r) = r"
  "(emptyWorld r)\<lparr>barrierLocations := [], barrierCenters := []\<rparr> = emptyWorld r"
  by (simp_all add: emptyWorld_def)

lemma blocks3_shape:
  "length (blocks3 w h) = 5 \<and> list_all (\<lambda>b. length b = 3 * (w div 3 + 1)) (blocks3 w h)"
  by (simp add: blocks3_def Let_def length_boxCells nat_add_distrib)

lemma stampSpot_eq:
  "stampSpot p n s =
     (fold markCell (visitNeighborhood p (spotLoc p n) radius6) s)
       \<lparr>barrierCenters := barrierCenters s @ [spotLoc p n]\<rparr>"
  by (simp add: stampSpot_def spotLoc_def Let_def fold_markCell_centers)


lemma fold_stampSpot_locations:
  "barrierLocations (fold (stampSpot p) ns s) =
     barrierLocations s @ concat (map (\<lambda>n. visitNeighborhood p (spotLoc p n) radius6) ns)"
  by (induction ns arbitrary: s) (simp_all add: stampSpot_eq fold_markCell_locations)

lemma spots_upt: "[1 ..< numberOfLocations + 1] = [1, 2, 3, 4, 5]"
  by (simp add: numberOfLocations_def upt_rec)

lemma createBarrier_6:
  "createBarrier p 6 s = Some (Returned (fold (stampSpot p) [1, 2, 3, 4, 5]
     (s\<lparr>barrierLocations := [], barrierCenters := []\<rparr>)))"
  unfolding createBarrier_def Let_def barrier6_def spots_upt by simp

lemma unsigned_id: "0 \<le> v \<Longrightarrow> v < 4294967296 \<Longrightarrow> unsigned v = v"
  by (simp add: unsigned_def)

text \<open>Selector 2 with a random source that keeps its contract.\<close>

lemma barrier2_returns:
  assumes "drawsInRange p" "sizeX p \<le> 32767" "sizeY p < 32767"
  shows "\<exists>s'. barrier2 p s = Some s'"
proof -
  define xlo xhi ylo yhi where "xlo = int (sizeX p div 10)" and "xhi = int (sizeX p - sizeX p div 10)"
    and "ylo = int (sizeY p div 4)" and "yhi = int (sizeY p - sizeY p div 4)"
  note defs = xlo_def xhi_def ylo_def yhi_def
  have b: "0 \<le> xlo" "xlo \<le> xhi" "xhi \<le> 32765" "0 \<le> ylo" "ylo \<le> yhi" "yhi + ylo \<le> 32766"
    using assms(2,3) unfolding defs by linarith+
  have u: "unsigned xlo = xlo" "unsigned xhi = xhi" "unsigned ylo = ylo" "unsigned yhi = yhi"
    using b by (simp_all add: unsigned_id)
  define d1 where "d1 = randomUint p (rng s) xlo xhi"
  define d2 where "d2 = randomUint p (snd d1) ylo yhi"
  have rx: "xlo \<le> fst d1" "fst d1 \<le> xhi"
    using assms(1) b(2) unfolding drawsInRange_def d1_def by blast+
  have ry: "ylo \<le> fst d2" "fst d2 \<le> yhi"
    using assms(1) b(5) unfolding drawsInRange_def d2_def by blast+
  have mx: "int16_t (fst d1) = fst d1" by (rule int16_t_id) (use rx b in linarith)+
  have my: "int16_t (fst d2) = fst d2" by (rule int16_t_id) (use ry b in linarith)+
  have e1: "int16_t (fst d1 - 1) = fst d1 - 1" by (rule int16_t_id) (use rx b in linarith)+
  have e2: "int16_t (fst d1 + 1) = fst d1 + 1" by (rule int16_t_id) (use rx b in linarith)+
  have e3: "int16_t (fst d2 - ylo) = fst d2 - ylo" by (rule int16_t_id) (use ry b in linarith)+
  have e4: "int16_t (fst d2 + ylo) = fst d2 + ylo" by (rule int16_t_id) (use ry b in linarith)+
  have "barrier2 p s = xLoop (fst d1 - 1) (fst d2 - ylo) (fst d1 + 1) (fst d2 + ylo)
      (s\<lparr>rng := snd d2, barrierCenters := barrierCenters s @ [Coord (fst d1) (fst d2)]\<rparr>)"
    unfolding barrier2_def Let_def split_def defs [symmetric] u d1_def [symmetric] d2_def [symmetric]
      mx my e1 e2 e3 e4 ..
  also have "\<dots> = Some (fold markCell (boxCells (fst d1 - 1) (fst d2 - ylo) (fst d1 + 1) (fst d2 + ylo))
      (s\<lparr>rng := snd d2, barrierCenters := barrierCenters s @ [Coord (fst d1) (fst d2)]\<rparr>))"
    by (rule xLoop_closed) (use rx ry b in linarith)+
  finally show ?thesis by blast
qed

lemma drawsInRange_testEnv: "drawsInRange (testEnv w h)"
  by (simp add: drawsInRange_def testEnv_simps lowestDraw_def)

lemma stampIsland_fields:
  "barrierCenters (stampIsland p c s) = barrierCenters s @ [c]"
  "barrierLocations (stampIsland p c s) = barrierLocations s @ visitNeighborhood p c radius5"
  by (simp_all add: stampIsland_def fold_markCell_centers fold_markCell_locations)

lemma fold_stampIsland_centers:
  "barrierCenters (fold (\<lambda>idx. stampIsland p (cs ! idx)) is s) =
     barrierCenters s @ map (\<lambda>idx. cs ! idx) is"
  by (induction "is" arbitrary: s) (simp_all add: stampIsland_fields)

lemma fold_stampIsland_locations:
  "barrierLocations (fold (\<lambda>idx. stampIsland p (cs ! idx)) is s) =
     barrierLocations s @ concat (map (\<lambda>idx. visitNeighborhood p (cs ! idx) radius5) is)"
  by (induction "is" arbitrary: s) (simp_all add: stampIsland_fields)

lemma barrier5_Some:
  assumes "barrier5 p s = Some s'"
  shows "length (barrierCenters s') = length (barrierCenters s) + numIslands \<and>
         placementValid (drop (length (barrierCenters s)) (barrierCenters s')) \<and>
         barrierCenters s' = barrierCenters s @ drop (length (barrierCenters s)) (barrierCenters s') \<and>
         barrierLocations s' = barrierLocations s @
           concat (map (\<lambda>c. visitNeighborhood p c radius5)
                       (drop (length (barrierCenters s)) (barrierCenters s')))"
proof -
  from assms obtain cs r1 where loop: "placementLoop p (rng s) = Some (cs, r1)"
    and s': "s' = fold (\<lambda>idx. stampIsland p (cs ! idx)) [0 ..< numIslands] (s\<lparr>rng := r1\<rparr>)"
    unfolding barrier5_def bind_eq_Some_conv by auto
  from placementLoop_Some [OF loop] obtain r0 where "(cs, r1) = drawCenters p numIslands r0"
    and valid: "placementValid cs" by auto
  then have "cs = fst (drawCenters p numIslands r0)" by (metis fst_conv)
  then have len: "length cs = numIslands" by (simp add: length_drawCenters)
  then have nth: "map (\<lambda>idx. cs ! idx) [0 ..< numIslands] = cs"
    by (metis map_nth)
  have "map (\<lambda>idx. visitNeighborhood p (cs ! idx) radius5) [0 ..< numIslands]
      = map (\<lambda>c. visitNeighborhood p c radius5) (map (\<lambda>idx. cs ! idx) [0 ..< numIslands])"
    by simp
  then have vis: "map (\<lambda>idx. visitNeighborhood p (cs ! idx) radius5) [0 ..< numIslands]
      = map (\<lambda>c. visitNeighborhood p c radius5) cs"
    by (simp only: nth)
  have c: "barrierCenters s' = barrierCenters s @ cs"
    by (simp add: s' fold_stampIsland_centers nth)
  have l: "barrierLocations s' = barrierLocations s @ concat (map (\<lambda>c. visitNeighborhood p c radius5) cs)"
    by (simp add: s' fold_stampIsland_locations vis)
  show ?thesis by (simp add: c l len valid)
qed

lemma scriptedEnv_simps:
  "sizeX (scriptedEnv w h) = w" "sizeY (scriptedEnv w h) = h"
  "randomUint (scriptedEnv w h) = scriptedDraw" "visitNeighborhood (scriptedEnv w h) = crossVisit"
  by (simp_all add: scriptedEnv_def)

lemma script_round1:
  "drawCenters (scriptedEnv 128 128) numIslands islandScript =
     ([Coord 20 20, Coord 25 20, Coord 80 20, Coord 110 20,
       Coord 20 60, Coord 50 60, Coord 80 60, Coord 110 60,
       Coord 20 100, Coord 50 100, Coord 80 100, Coord 110 100],
      concat (map (\<lambda>c. [coord_x c, coord_y c]) islandCenters))"
  by code_simp

lemma script_round2:
  "drawCenters (scriptedEnv 128 128) numIslands (concat (map (\<lambda>c. [coord_x c, coord_y c]) islandCenters)) =
     (islandCenters, [])"
  by code_simp

lemma script_invalid1:
  "\<not> placementValid [Coord 20 20, Coord 25 20, Coord 80 20, Coord 110 20,
       Coord 20 60, Coord 50 60, Coord 80 60, Coord 110 60,
       Coord 20 100, Coord 50 100, Coord 80 100, Coord 110 100]"
  by code_simp

lemma script_valid2: "placementValid islandCenters"
  by code_simp

lemma placement_script:
  "placementLoop (scriptedEnv 128 128) islandScript = Some (islandCenters, [])"
  apply (subst placementLoop.simps)
  apply (simp only: script_round1 Let_def split script_invalid1 if_False)
  apply (subst placementLoop.simps)
  apply (simp only: script_round2 Let_def split script_valid2 if_True)
  done

lemma randomLoc_inMargin:
  assumes "drawsInRange p" "24 \<le> sizeX p" "sizeX p \<le> 32767" "24 \<le> sizeY p" "sizeY p \<le> 32767"
  shows "inMargin p (fst (randomLoc p r))"
proof -
  have ux: "unsigned (int (sizeX p) - 12) = int (sizeX p) - 12"
    and uy: "unsigned (int (sizeY p) - 12) = int (sizeY p) - 12"
    using assms by (simp_all add: unsigned_id)
  define d1 where "d1 = randomUint p r 12 (int (sizeX p) - 12)"
  define d2 where "d2 = randomUint p (snd d1) 12 (int (sizeY p) - 12)"
  have rx: "12 \<le> fst d1" "fst d1 \<le> int (sizeX p) - 12"
    using assms(1,2) unfolding drawsInRange_def d1_def by (simp_all add: of_nat_diff)
  have ry: "12 \<le> fst d2" "fst d2 \<le> int (sizeY p) - 12"
    using assms(1,4) unfolding drawsInRange_def d2_def by (simp_all add: of_nat_diff)
  have mx: "int16_t (fst d1) = fst d1" by (rule int16_t_id) (use rx assms in linarith)+
  have my: "int16_t (fst d2) = fst d2" by (rule int16_t_id) (use ry assms in linarith)+
  have "fst (randomLoc p r) = Coord (fst d1) (fst d2)"
    unfolding randomLoc_def margin_eq ux uy Let_def split_def d1_def [symmetric] d2_def [symmetric]
      fst_conv mx my ..
  with rx ry show ?thesis by (simp add: inMargin_def margin_eq)
qed

lemma drawCenters_inMargin:
  assumes "drawsInRange p" "24 \<le> sizeX p" "sizeX p \<le> 32767" "24 \<le> sizeY p" "sizeY p \<le> 32767"
  shows "list_all (inMargin p) (fst (drawCenters p n r))"
proof (induction n arbitrary: r)
  case 0
  show ?case by simp
next
  case (Suc n)
  have "inMargin p (fst (randomLoc p r))" using assms by (rule randomLoc_inMargin)
  moreover have "list_all (inMargin p) (fst (drawCenters p n (snd (randomLoc p r))))" by (rule Suc.IH)
  ultimately show ?case by (simp add: split_def Let_def)
qed

lemma square_le_36: "\<bar>d\<bar> \<le> 6 \<Longrightarrow> d\<^sup>2 \<le> 36" for d :: int
proof -
  assume "\<bar>d\<bar> \<le> 6"
  then have "\<bar>d\<bar> \<le> \<bar>6\<bar>" by simp
  then have "d\<^sup>2 \<le> (6::int)\<^sup>2" by (simp only: abs_le_square_iff)
  then show ?thesis by simp
qed

lemma inGrid_box:
  assumes "0 \<le> x0" "x1 < int (sizeX p)" "0 \<le> y0" "y1 < int (sizeY p)"
  shows "list_all (inGrid p) (boxCells x0 y0 x1 y1)"
  unfolding list_all_iff set_boxCells inGrid_def using assms by auto

lemma layout1_inGrid:
  assumes "layoutFits p 1"
  shows "list_all (inGrid p)
           (boxCells (int (sizeX p div 2)) (int (sizeY p div 4))
                     (int (sizeX p div 2) + 1) (int (sizeY p div 4) + int (sizeY p div 2)))"
proof (rule inGrid_box)
  from assms have a: "sizeX p div 2 + 1 < sizeX p" "sizeY p div 4 + sizeY p div 2 < sizeY p"
    by (simp_all add: layoutFits_def Let_def)
  show "int (sizeX p div 2) + 1 < int (sizeX p)" using a(1) by linarith
  show "int (sizeY p div 4) + int (sizeY p div 2) < int (sizeY p)" using a(2) by linarith
qed simp_all

lemma layout4_inGrid:
  assumes "layoutFits p 4"
  shows "list_all (inGrid p)
           (boxCells (int (sizeX p div 4)) (int (sizeY p div 2) + int (sizeY p div 4))
                     (int (sizeX p div 4) + int (sizeX p div 2))
                     (int (sizeY p div 2) + int (sizeY p div 4) + 2))"
proof (rule inGrid_box)
  from assms have a: "sizeX p div 4 + sizeX p div 2 < sizeX p" "sizeY p div 2 + sizeY p div 4 + 2 < sizeY p"
    by (simp_all add: layoutFits_def Let_def)
  show "int (sizeX p div 4) + int (sizeX p div 2) < int (sizeX p)" using a(1) by linarith
  show "int (sizeY p div 2) + int (sizeY p div 4) + 2 < int (sizeY p)" using a(2) by linarith
qed simp_all

lemma layout3_inGrid:
  assumes "layoutFits p 3"
  shows "list_all (inGrid p) (concat (blocks3 (sizeX p) (sizeY p)))"
proof -
  define w4 w2 w3 w6 h4 h2 where "w4 = int (sizeX p div 4)" and "w2 = int (sizeX p div 2)"
    and "w3 = int (sizeX p div 3)" and "w6 = int (sizeX p div 3) div 2"
    and "h4 = int (sizeY p div 4)" and "h2 = int (sizeY p div 2)"
  note defs = w4_def w2_def w3_def w6_def h4_def h2_def
  from assms have a: "1 \<le> sizeX p div 4" "sizeX p div 4 + sizeX p div 2 + 1 < sizeX p"
    "(sizeX p div 3) div 2 \<le> sizeY p div 4"
    "sizeY p div 4 + sizeY p div 2 + sizeX p div 3 < sizeY p + (sizeX p div 3) div 2"
    by (simp_all add: layoutFits_def Let_def)
  have w6': "w6 = int ((sizeX p div 3) div 2)" by (simp add: w6_def zdiv_int)
  have b: "1 \<le> w4" "w4 + w2 + 1 < int (sizeX p)" "w6 \<le> h4" "h4 + h2 + w3 < int (sizeY p) + w6"
    "0 \<le> w2" "0 \<le> h2" "0 \<le> w3" "0 \<le> w6" "w4 \<le> w2" "h4 \<le> h2"
    using a unfolding w6' w4_def w2_def w3_def h4_def h2_def by linarith+
  have 1: "list_all (inGrid p) (boxCells (w4 - 1) (h4 - w6) (w4 - 1 + 2) (h4 - w6 + w3))"
    by (rule inGrid_box) (use b in linarith)+
  have 2: "list_all (inGrid p) (boxCells (w4 - 1 + w2) (h4 - w6) (w4 - 1 + w2 + 2) (h4 - w6 + w3))"
    by (rule inGrid_box) (use b in linarith)+
  have 3: "list_all (inGrid p) (boxCells (w4 - 1 + w2) (h4 - w6 + h2) (w4 - 1 + w2 + 2) (h4 - w6 + h2 + w3))"
    by (rule inGrid_box) (use b in linarith)+
  have 4: "list_all (inGrid p) (boxCells (w4 - 1) (h4 - w6 + h2) (w4 - 1 + 2) (h4 - w6 + h2 + w3))"
    by (rule inGrid_box) (use b in linarith)+
  have 5: "list_all (inGrid p) (boxCells (w2 - 1) (h2 - w6) (w2 - 1 + 2) (h2 - w6 + w3))"
    by (rule inGrid_box) (use b in linarith)+
  have "concat (blocks3 (sizeX p) (sizeY p)) =
      boxCells (w4 - 1) (h4 - w6) (w4 - 1 + 2) (h4 - w6 + w3) @
      boxCells (w4 - 1 + w2) (h4 - w6) (w4 - 1 + w2 + 2) (h4 - w6 + w3) @
      boxCells (w4 - 1 + w2) (h4 - w6 + h2) (w4 - 1 + w2 + 2) (h4 - w6 + h2 + w3) @
      boxCells (w4 - 1) (h4 - w6 + h2) (w4 - 1 + 2) (h4 - w6 + h2 + w3) @
      boxCells (w2 - 1) (h2 - w6) (w2 - 1 + 2) (h2 - w6 + w3)"
    by (simp add: blocks3_def Let_def defs)
  with 1 2 3 4 5 show ?thesis by simp
qed

lemma visits_inGrid:
  assumes "\<forall>c r. list_all (inGrid p) (visitNeighborhood p c r)"
  shows "list_all (inGrid p) (concat (map (\<lambda>c. visitNeighborhood p c r) cs))"
  using assms by (induction cs) simp_all

text \<open>
  Selector 2 draws \<open>midY\<close> from \<open>[H/4, H - H/4]\<close> and marks the rows up to \<open>midY + H/4\<close>: with
  the largest draw the bar reaches row \<open>H\<close>, one past the last row of the grid.
\<close>

lemma selector2_reaches_row_H:
  "\<exists>s'. createBarrier (scriptedEnv 100 100) 2 (emptyWorld [50, 75]) = Some (Returned s') \<and>
        barrierLocations s' = boxCells 49 50 51 100 \<and>
        Coord 50 100 \<in> set (barrierLocations s') \<and>
        \<not> inGrid (scriptedEnv 100 100) (Coord 50 100)"
proof (intro exI conjI)
  let ?s' = "fold markCell (boxCells 49 50 51 100)
               ((emptyWorld [50, 75])\<lparr>rng := [], barrierCenters := [Coord 50 75]\<rparr>)"
  have ids: "int16_t 50 = 50" "int16_t 75 = 75" "int16_t 49 = 49" "int16_t 51 = 51" "int16_t 100 = 100"
    by (simp_all add: int16_t_def)
  have loop: "xLoop 49 50 51 100 s = Some (fold markCell (boxCells 49 50 51 100) s)"
    for s :: "int list world"
    by (rule xLoop_closed) simp_all
  have "barrier2 (scriptedEnv 100 100) (emptyWorld [50, 75]) = Some ?s'"
    by (simp add: barrier2_def Let_def scriptedEnv_simps emptyWorld_simps unsigned_def ids loop)
  then show "createBarrier (scriptedEnv 100 100) 2 (emptyWorld [50, 75]) = Some (Returned ?s')"
    by (simp add: createBarrier_def Let_def emptyWorld_simps)
  show l: "barrierLocations ?s' = boxCells 49 50 51 100"
    by (simp add: fold_markCell_locations emptyWorld_simps)
  show "Coord 50 100 \<in> set (barrierLocations ?s')"
    unfolding l by (simp add: set_boxCells)
  show "\<not> inGrid (scriptedEnv 100 100) (Coord 50 100)"
    by (simp add: inGrid_def scriptedEnv_simps)
qed

lemma xLoop_Some_bound:
  "xLoop x minY maxX maxY s = Some s' \<Longrightarrow> maxX < 32767 \<or> maxX < x"
proof (induct x minY maxX maxY s s' rule: xLoop_induct)
  case (step xLoop' x minY maxX maxY s s')
  show ?case
  proof (cases "x \<le> maxX")
    case True
    with step(2) obtain s1 where "xLoop' (int16_t (x + 1)) minY maxX maxY s1 = Some s'"
      by (auto simp: bind_eq_Some_conv)
    then have "maxX < 32767 \<or> maxX < int16_t (x + 1)" by (rule step(1))
    with int16_t_le [of "x + 1"] show ?thesis by linarith
  next
    case False
    then show ?thesis by simp
  qed
qed

lemma xLoop_never_ends: "x \<le> 32767 \<Longrightarrow> xLoop x minY 32767 maxY s = None"
  using xLoop_Some_bound [of x minY 32767 maxY s] by (cases "xLoop x minY 32767 maxY s") auto


lemma drawsInRange_scriptedEnv: "drawsInRange (scriptedEnv w h)"
proof -
  have "lo \<le> fst (scriptedDraw r lo hi) \<and> fst (scriptedDraw r lo hi) \<le> hi" if "lo \<le> hi"
    for r lo hi
    using that by (cases r) simp_all
  then show ?thesis by (simp add: drawsInRange_def scriptedEnv_simps)
qed

lemma square_le_49: "\<bar>d\<bar> \<le> 7 \<Longrightarrow> d\<^sup>2 \<le> 49" for d :: int
proof -
  assume "\<bar>d\<bar> \<le> 7"
  then have "\<bar>d\<bar> \<le> \<bar>7\<bar>" by simp
  then have "d\<^sup>2 \<le> (7::int)\<^sup>2" by (simp only: abs_le_square_iff)
  then show ?thesis by simp
qed

lemma script_small_grid:
  "drawCenters (scriptedEnv 8 8) numIslands (concat (map (\<lambda>c. [coord_x c, coord_y c]) islandCenters)) =
     (islandCenters, [])"
  by code_simp

lemma placement_small_grid:
  "placementLoop (scriptedEnv 8 8) (concat (map (\<lambda>c. [coord_x c, coord_y c]) islandCenters)) =
     Some (islandCenters, [])"
  apply (subst placementLoop.simps)
  apply (simp only: script_small_grid Let_def split script_valid2 if_True)
  done

section \<open>The properties of the specification\<close>

text \<open>
  Claim C1. When a call returns, the calls \<open>grid.set\<close> received during it are exactly
  \<open>set(c, BARRIER)\<close> for the coordinates \<open>c\<close> of the final \<open>barrierLocations\<close>, in the same
  order and as often: a cell written twice is listed twice, and nothing is listed that
  was not written.
\<close>

theorem locations_are_the_cells_set:
  assumes "createBarrier p t s = Some (Returned s')"
  shows "setLog s' = setLog s @ map (\<lambda>c. (c, BARRIER)) (barrierLocations s')"
proof -
  from createBarrier_Returned [OF assms]
  have "marksOnly (s\<lparr>barrierLocations := [], barrierCenters := []\<rparr>) s'" by simp
  then show ?thesis by (auto simp: marksOnly_def)
qed

theorem locations_are_the_cells_set_witness:
  "\<exists>s'. createBarrier (testEnv 8 8) 3 (emptyWorld ()) = Some (Returned s') \<and>
        setLog s' = map (\<lambda>c. (c, BARRIER)) (barrierLocations s') \<and>
        length (barrierLocations s') = 45 \<and>
        \<not> distinct (barrierLocations s')"
proof -
  let ?cs = "concat (blocks3 8 8)"
  let ?s' = "fold markCell ?cs (emptyWorld ())"
  have run: "createBarrier (testEnv 8 8) 3 (emptyWorld ()) = Some (Returned ?s')"
    using createBarrier_3 [of "testEnv 8 8" "emptyWorld ()"]
    by (simp add: testEnv_simps emptyWorld_simps)
  have locs: "barrierLocations ?s' = ?cs"
    by (simp add: fold_markCell_locations emptyWorld_simps)
  have cs: "?cs = boxCells 1 1 3 3 @ (boxCells 5 1 7 3 @ boxCells 5 5 7 7 @ boxCells 1 5 3 7)
                  @ boxCells 3 3 5 5"
    by (simp add: blocks3_def Let_def)
  have len: "length ?cs = 45"
    by (simp add: blocks3_def Let_def length_boxCells)
  have dup: "\<not> distinct ?cs"
  proof
    assume "distinct ?cs"
    then have "set (boxCells 1 1 3 3) \<inter>
        set ((boxCells 5 1 7 3 @ boxCells 5 5 7 7 @ boxCells 1 5 3 7) @ boxCells 3 3 5 5) = {}"
      unfolding cs by (simp only: distinct_append)
    moreover have "Coord 3 3 \<in> set (boxCells 1 1 3 3) \<inter>
        set ((boxCells 5 1 7 3 @ boxCells 5 5 7 7 @ boxCells 1 5 3 7) @ boxCells 3 3 5 5)"
      by (simp add: set_boxCells)
    ultimately show False by blast
  qed
  have log: "setLog ?s' = map (\<lambda>c. (c, BARRIER)) (barrierLocations ?s')"
    using locations_are_the_cells_set [OF run] by (simp only: emptyWorld_simps append_Nil)
  show ?thesis
  proof (intro exI conjI)
    show "createBarrier (testEnv 8 8) 3 (emptyWorld ()) = Some (Returned ?s')" by (rule run)
    show "setLog ?s' = map (\<lambda>c. (c, BARRIER)) (barrierLocations ?s')" by (rule log)
    show "length (barrierLocations ?s') = 45" by (simp only: locs len)
    show "\<not> distinct (barrierLocations ?s')" by (simp only: locs dup not_False_eq_True)
  qed
qed

text \<open>
  Claim C2, as the code has it. No variant clamps or checks a coordinate, so on a grid too
  small for a layout cells outside the grid are written and listed: selector 4 on an 8 by 8
  grid lists (2, 8).
\<close>

theorem marked_cells_outside_small_grid:
  "\<exists>s'. createBarrier (testEnv 8 8) 4 (emptyWorld ()) = Some (Returned s') \<and>
        Coord 2 8 \<in> set (barrierLocations s') \<and>
        \<not> inGrid (testEnv 8 8) (Coord 2 8)"
proof (intro exI conjI)
  let ?s' = "fold markCell (boxCells 2 6 6 8) (emptyWorld ())"
  show "createBarrier (testEnv 8 8) 4 (emptyWorld ()) = Some (Returned ?s')"
    using createBarrier_4 [of "testEnv 8 8" "emptyWorld ()"]
    by (simp add: testEnv_simps emptyWorld_simps)
  show "Coord 2 8 \<in> set (barrierLocations ?s')"
    by (simp add: fold_markCell_locations emptyWorld_simps set_boxCells)
  show "\<not> inGrid (testEnv 8 8) (Coord 2 8)"
    by (simp add: inGrid_def testEnv_simps)
qed

text \<open>
  Claim C2, amended. For selectors 0, 1, 3 and 4 on a grid large enough for the layout
  (\<open>layoutFits\<close>; for 1, 3 and 4 with dimensions within the \<open>int16_t\<close> range), and for
  selectors 5 and 6
  whenever the call returns and the neighbourhood visitor yields only cells of the grid,
  every coordinate of \<open>barrierLocations\<close> lies within \<open>[0, sizeX) \<times> [0, sizeY)\<close> and its cell
  holds \<open>BARRIER\<close> after the call. Nothing is said about selector 2.
\<close>

theorem marked_cells_in_grid:
  assumes "createBarrier p t s = Some (Returned s')"
    and "t = 1 \<or> t = 3 \<or> t = 4 \<Longrightarrow> sizeX p \<le> 32767 \<and> sizeY p \<le> 32767"
    and "layoutFits p t"
  shows "list_all (\<lambda>c. inGrid p c \<and> cells s' c = BARRIER) (barrierLocations s')"
proof -
  let ?s = "s\<lparr>barrierLocations := [], barrierCenters := []\<rparr>"
  from createBarrier_Returned [OF assms(1)] have m: "marksOnly ?s s'" by simp
  then have barrier: "list_all (\<lambda>c. cells s' c = BARRIER) (barrierLocations s')"
    by (auto simp: marksOnly_def list_all_iff)
  from assms(3) consider "t = 0" | "t = 1" | "t = 3" | "t = 4" | "t = 5" | "t = 6"
    by (auto simp: layoutFits_def Let_def split: if_splits)
  then have "list_all (inGrid p) (barrierLocations s')"
  proof cases
    case 1
    with assms(1) show ?thesis by (auto simp: createBarrier_def Let_def)
  next
    case 2
    with assms(2) have sz: "sizeX p \<le> 32767" "sizeY p \<le> 32767" by simp_all
    from 2 assms(1) createBarrier_1 [OF sz, of s] layout1_inGrid [of p] assms(3)
    show ?thesis by (auto simp: fold_markCell_locations)
  next
    case 3
    with assms(2) have sz: "sizeX p \<le> 32767" "sizeY p \<le> 32767" by simp_all
    from 3 assms(1) createBarrier_3 [OF sz, of s] layout3_inGrid [of p] assms(3)
    show ?thesis by (auto simp: fold_markCell_locations)
  next
    case 4
    with assms(2) have sz: "sizeX p \<le> 32767" "sizeY p \<le> 32767" by simp_all
    from 4 assms(1) createBarrier_4 [OF sz, of s] layout4_inGrid [of p] assms(3)
    show ?thesis by (auto simp: fold_markCell_locations)
  next
    case 5
    with assms(3) have v: "\<forall>c r. list_all (inGrid p) (visitNeighborhood p c r)"
      by (simp add: layoutFits_def)
    from 5 assms(1) have "barrier5 p ?s = Some s'"
      by (auto simp: createBarrier_def Let_def)
    from barrier5_Some [OF this]
    have "barrierLocations s' = concat (map (\<lambda>c. visitNeighborhood p c radius5) (barrierCenters s'))"
      by simp
    then show ?thesis by (simp only: visits_inGrid [OF v])
  next
    case 6
    with assms(3) have v: "\<forall>c r. list_all (inGrid p) (visitNeighborhood p c r)"
      by (simp add: layoutFits_def)
    from 6 assms(1) createBarrier_6 [of p s]
    have "s' = fold (stampSpot p) [1, 2, 3, 4, 5] ?s" by simp
    then have "barrierLocations s' =
        concat (map (\<lambda>c. visitNeighborhood p c radius6) (map (spotLoc p) [1, 2, 3, 4, 5]))"
      by (simp only: fold_stampSpot_locations) simp
    then show ?thesis by (simp only: visits_inGrid [OF v])
  qed
  with barrier show ?thesis by (simp add: list_all_iff)
qed

theorem marked_cells_in_grid_witness:
  "\<exists>s'. createBarrier (testEnv 100 100) 3 (emptyWorld ()) = Some (Returned s') \<and>
        length (barrierLocations s') = 510 \<and>
        list_all (\<lambda>c. inGrid (testEnv 100 100) c \<and> cells s' c = BARRIER) (barrierLocations s')"
proof -
  let ?s' = "fold markCell (concat (blocks3 100 100)) (emptyWorld ())"
  have run: "createBarrier (testEnv 100 100) 3 (emptyWorld ()) = Some (Returned ?s')"
    using createBarrier_3 [of "testEnv 100 100" "emptyWorld ()"]
    by (simp add: testEnv_simps emptyWorld_simps)
  have fits: "layoutFits (testEnv 100 100) 3"
    by (simp add: layoutFits_def testEnv_simps)
  have sz: "sizeX (testEnv 100 100) \<le> 32767 \<and> sizeY (testEnv 100 100) \<le> 32767"
    by (simp add: testEnv_simps)
  have len: "length (barrierLocations ?s') = 510"
    by (simp add: fold_markCell_locations emptyWorld_simps blocks3_def Let_def length_boxCells)
  from marked_cells_in_grid [OF run sz fits] len run show ?thesis by blast
qed

text \<open>
  Claim C3, as the code has it. A grid too small for 12 separated centres does not always
  make the loop run forever. On an 8 by 8 grid no two cells are 12 apart, but
  \<open>p.sizeX - margin\<close> is an \<open>unsigned\<close> subtraction and wraps to 4294967292, so a random
  source that keeps within its bounds may draw twelve centres far outside the grid that
  pass the test in the first round, and the call returns.
\<close>

theorem placement_ends_on_8_by_8:
  "drawsInRange (scriptedEnv 8 8) \<and>
   unsigned (int (sizeX (scriptedEnv 8 8)) - margin) = 4294967292 \<and>
   \<not> (\<exists>a b. inGrid (scriptedEnv 8 8) a \<and> inGrid (scriptedEnv 8 8) b \<and> 12 \<le> distance a b) \<and>
   (\<exists>s'. createBarrier (scriptedEnv 8 8) 5
           (emptyWorld (concat (map (\<lambda>c. [coord_x c, coord_y c]) islandCenters))) = Some (Returned s') \<and>
         barrierCenters s' = islandCenters)"
proof (intro conjI)
  show "drawsInRange (scriptedEnv 8 8)" by (rule drawsInRange_scriptedEnv)
  show "unsigned (int (sizeX (scriptedEnv 8 8)) - margin) = 4294967292"
    by (simp add: scriptedEnv_simps margin_eq unsigned_def)
  show "\<not> (\<exists>a b. inGrid (scriptedEnv 8 8) a \<and> inGrid (scriptedEnv 8 8) b \<and> 12 \<le> distance a b)"
  proof
    assume "\<exists>a b. inGrid (scriptedEnv 8 8) a \<and> inGrid (scriptedEnv 8 8) b \<and> 12 \<le> distance a b"
    then obtain a b where a: "inGrid (scriptedEnv 8 8) a" and b: "inGrid (scriptedEnv 8 8) b"
      and far: "12 \<le> distance a b" by blast
    from a b have "\<bar>coord_x a - coord_x b\<bar> \<le> 7" "\<bar>coord_y a - coord_y b\<bar> \<le> 7"
      unfolding inGrid_def scriptedEnv_simps by linarith+
    then have "(coord_x a - coord_x b)\<^sup>2 \<le> 49" "(coord_y a - coord_y b)\<^sup>2 \<le> 49"
      by (simp_all only: square_le_49)
    then have "\<not> 12 \<le> distance a b"
      using distance_ge_iff [of 12 a b] by simp
    with far show False by simp
  qed
  let ?script = "concat (map (\<lambda>c. [coord_x c, coord_y c]) islandCenters)"
  let ?s' = "fold (\<lambda>idx. stampIsland (scriptedEnv 8 8) (islandCenters ! idx)) [0 ..< numIslands]
               ((emptyWorld ?script)\<lparr>rng := []\<rparr>)"
  have run: "createBarrier (scriptedEnv 8 8) 5 (emptyWorld ?script) = Some (Returned ?s')"
    by (simp add: createBarrier_def Let_def barrier5_def placement_small_grid emptyWorld_simps)
  have "length islandCenters = numIslands"
    by (simp add: islandCenters_def numIslands_def)
  then have "map (\<lambda>idx. islandCenters ! idx) [0 ..< numIslands] = islandCenters"
    by (metis map_nth)
  then have cs: "barrierCenters ?s' = islandCenters"
    by (simp add: fold_stampIsland_centers emptyWorld_simps)
  show "\<exists>s'. createBarrier (scriptedEnv 8 8) 5 (emptyWorld ?script) = Some (Returned s') \<and>
         barrierCenters s' = islandCenters"
    using run cs by blast
qed

text \<open>
  Claim C3, amended. The placement loop of selector 5 has no bound on its rounds. When it
  ends, the centres it delivers are the twelve of one round of draws (each asked for
  between \<open>margin\<close> and \<open>size - margin\<close> on its axis), any two at distance at least 12. With
  a random source that draws within its bounds, on a grid of at least 24 and at most 32767
  cells per axis (so that \<open>margin \<le> size - margin\<close> and nothing wraps) that is too small to
  hold 12 centres that far apart between \<open>margin\<close> and \<open>size - margin\<close>, no round passes the
  test and the call never returns: selector 5 does not terminate for every grid size.
\<close>

theorem placement_may_never_end:
  "(placementLoop p r = Some (cs, r') \<longrightarrow>
      (\<exists>r0. drawCenters p 12 r0 = (cs, r')) \<and>
      (\<forall>i<12. \<forall>j<12. i \<noteq> j \<longrightarrow> 12 \<le> distance (cs ! i) (cs ! j))) \<and>
   (drawsInRange p \<and> 24 \<le> sizeX p \<and> sizeX p \<le> 32767 \<and> 24 \<le> sizeY p \<and> sizeY p \<le> 32767 \<and>
    (\<forall>cs. length cs = 12 \<and> list_all (inMargin p) cs \<longrightarrow>
          (\<exists>i<12. \<exists>j<12. i \<noteq> j \<and> distance (cs ! i) (cs ! j) < 12))
    \<longrightarrow> createBarrier p 5 s = None)"
proof (intro conjI impI)
  assume loop: "placementLoop p r = Some (cs, r')"
  from placementLoop_Some [OF loop] obtain r0 where r0: "(cs, r') = drawCenters p numIslands r0"
    and valid: "placementValid cs" by auto
  from r0 show "\<exists>r0. drawCenters p 12 r0 = (cs, r')"
    by (metis numIslands_def)
  show "\<forall>i<12. \<forall>j<12. i \<noteq> j \<longrightarrow> 12 \<le> distance (cs ! i) (cs ! j)"
    using placementValid_pairs [OF valid] by (simp add: numIslands_def margin_eq)
next
  assume a: "drawsInRange p \<and> 24 \<le> sizeX p \<and> sizeX p \<le> 32767 \<and> 24 \<le> sizeY p \<and> sizeY p \<le> 32767 \<and>
    (\<forall>cs. length cs = 12 \<and> list_all (inMargin p) cs \<longrightarrow>
          (\<exists>i<12. \<exists>j<12. i \<noteq> j \<and> distance (cs ! i) (cs ! j) < 12))"
  have "\<not> placementValid (fst (drawCenters p numIslands r))" for r
  proof
    let ?cs = "fst (drawCenters p numIslands r)"
    assume valid: "placementValid ?cs"
    have "length ?cs = 12" by (simp add: length_drawCenters numIslands_def)
    moreover have "list_all (inMargin p) ?cs" using a by (intro drawCenters_inMargin) simp_all
    ultimately obtain i j where "i < 12" "j < 12" "i \<noteq> j" "distance (?cs ! i) (?cs ! j) < 12"
      using a by blast
    moreover have "12 \<le> distance (?cs ! i) (?cs ! j)"
      using placementValid_pairs [OF valid, of i j] \<open>i < 12\<close> \<open>j < 12\<close> \<open>i \<noteq> j\<close>
      by (simp add: numIslands_def margin_eq)
    ultimately show False by simp
  qed
  then have "placementLoop p r = None" for r by (rule placementLoop_None)
  then show "createBarrier p 5 s = None"
    by (simp add: createBarrier_def Let_def barrier5_def)
qed

theorem placement_may_never_end_witness:
  "createBarrier (testEnv 30 30) 5 (emptyWorld ()) = None"
proof -
  have small: "\<exists>i<12. \<exists>j<12. i \<noteq> j \<and> distance (cs ! i) (cs ! j) < 12"
    if len: "length cs = 12" and m: "list_all (inMargin (testEnv 30 30)) cs" for cs
  proof -
    have "cs ! 0 \<in> set cs" "cs ! 1 \<in> set cs" using len by simp_all
    with m have "inMargin (testEnv 30 30) (cs ! 0)" "inMargin (testEnv 30 30) (cs ! 1)"
      by (simp_all add: list_all_iff)
    then have "\<bar>coord_x (cs ! 0) - coord_x (cs ! 1)\<bar> \<le> 6" "\<bar>coord_y (cs ! 0) - coord_y (cs ! 1)\<bar> \<le> 6"
      unfolding inMargin_def margin_eq testEnv_simps by linarith+
    then have "(coord_x (cs ! 0) - coord_x (cs ! 1))\<^sup>2 \<le> 36" "(coord_y (cs ! 0) - coord_y (cs ! 1))\<^sup>2 \<le> 36"
      by (simp_all only: square_le_36)
    then have "\<not> 12 \<le> distance (cs ! 0) (cs ! 1)"
      using distance_ge_iff [of 12 "cs ! 0" "cs ! 1"] by simp
    then have "distance (cs ! 0) (cs ! 1) < 12" by simp
    then show ?thesis by (intro exI [of _ 0] exI [of _ 1] conjI) simp_all
  qed
  have hyp: "drawsInRange (testEnv 30 30) \<and>
      24 \<le> sizeX (testEnv 30 30) \<and> sizeX (testEnv 30 30) \<le> 32767 \<and>
      24 \<le> sizeY (testEnv 30 30) \<and> sizeY (testEnv 30 30) \<le> 32767 \<and>
      (\<forall>cs. length cs = 12 \<and> list_all (inMargin (testEnv 30 30)) cs \<longrightarrow>
          (\<exists>i<12. \<exists>j<12. i \<noteq> j \<and> distance (cs ! i) (cs ! j) < 12))"
  proof (intro conjI allI impI)
    fix cs :: "Coord list"
    assume "length cs = 12 \<and> list_all (inMargin (testEnv 30 30)) cs"
    then show "\<exists>i<12. \<exists>j<12. i \<noteq> j \<and> distance (cs ! i) (cs ! j) < 12"
      using small by blast
  qed (simp_all add: drawsInRange_testEnv testEnv_simps)
  from placement_may_never_end [where p = "testEnv 30 30" and s = "emptyWorld ()"]
  have "drawsInRange (testEnv 30 30) \<and>
      24 \<le> sizeX (testEnv 30 30) \<and> sizeX (testEnv 30 30) \<le> 32767 \<and>
      24 \<le> sizeY (testEnv 30 30) \<and> sizeY (testEnv 30 30) \<le> 32767 \<and>
      (\<forall>cs. length cs = 12 \<and> list_all (inMargin (testEnv 30 30)) cs \<longrightarrow>
          (\<exists>i<12. \<exists>j<12. i \<noteq> j \<and> distance (cs ! i) (cs ! j) < 12))
      \<longrightarrow> createBarrier (testEnv 30 30) 5 (emptyWorld ()) = None"
    by (rule conjunct2)
  from this hyp show ?thesis by (rule mp)
qed

text \<open>
  Claim C4. Whenever selector 5 returns, \<open>barrierCenters\<close> holds exactly 12 centres, any two
  of them at Euclidean distance at least 12 (\<open>margin = radius * 4\<close>), and the cells marked
  are exactly what the neighbourhood visitor yields with radius 3 around each of the 12
  centres, one visit per centre, in the order of the centres: that sequence is
  \<open>barrierLocations\<close>, the calls \<open>grid.set\<close> received, and the cells that changed.
\<close>

theorem islands_apart:
  assumes "createBarrier p 5 s = Some (Returned s')"
  shows "length (barrierCenters s') = 12 \<and>
         (\<forall>i<12. \<forall>j<12. i \<noteq> j \<longrightarrow> 12 \<le> distance (barrierCenters s' ! i) (barrierCenters s' ! j)) \<and>
         barrierLocations s' = concat (map (\<lambda>c. visitNeighborhood p c 3) (barrierCenters s')) \<and>
         setLog s' = setLog s @ map (\<lambda>c. (c, BARRIER)) (barrierLocations s') \<and>
         cells s' = (\<lambda>c. if c \<in> set (barrierLocations s') then BARRIER else cells s c)"
proof -
  let ?s = "s\<lparr>barrierLocations := [], barrierCenters := []\<rparr>"
  from assms have run: "barrier5 p ?s = Some s'"
    by (auto simp: createBarrier_def Let_def)
  from barrier5_Some [OF run] have len: "length (barrierCenters s') = numIslands"
    and valid: "placementValid (barrierCenters s')"
    and locs: "barrierLocations s' = concat (map (\<lambda>c. visitNeighborhood p c radius5) (barrierCenters s'))"
    by simp_all
  have apart: "12 \<le> distance (barrierCenters s' ! i) (barrierCenters s' ! j)"
    if "i < 12" "j < 12" "i \<noteq> j" for i j
    using placementValid_pairs [OF valid, of i j] that by (simp add: numIslands_def margin_eq)
  from createBarrier_Returned [OF assms] have "marksOnly ?s s'" by simp
  then have "setLog s' = setLog s @ map (\<lambda>c. (c, BARRIER)) (barrierLocations s')"
    and "cells s' = (\<lambda>c. if c \<in> set (barrierLocations s') then BARRIER else cells s c)"
    by (auto simp: marksOnly_def)
  with len locs apart show ?thesis
    by (simp add: numIslands_def radius5_def)
qed

theorem islands_apart_witness:
  "\<exists>s'. createBarrier (scriptedEnv 128 128) 5 (emptyWorld islandScript) = Some (Returned s') \<and>
        barrierCenters s' = islandCenters \<and>
        length (barrierCenters s') = 12 \<and>
        12 \<le> distance (barrierCenters s' ! 0) (barrierCenters s' ! 1) \<and>
        barrierLocations s' = concat (map (\<lambda>c. crossVisit c 3) (barrierCenters s')) \<and>
        setLog s' = map (\<lambda>c. (c, BARRIER)) (barrierLocations s')"
proof -
  let ?s' = "fold (\<lambda>idx. stampIsland (scriptedEnv 128 128) (islandCenters ! idx)) [0 ..< numIslands]
               ((emptyWorld islandScript)\<lparr>rng := []\<rparr>)"
  have run: "createBarrier (scriptedEnv 128 128) 5 (emptyWorld islandScript) = Some (Returned ?s')"
    by (simp add: createBarrier_def Let_def barrier5_def placement_script emptyWorld_simps)
  have "length islandCenters = numIslands"
    by (simp add: islandCenters_def numIslands_def)
  then have "map (\<lambda>idx. islandCenters ! idx) [0 ..< numIslands] = islandCenters"
    by (metis map_nth)
  then have cs: "barrierCenters ?s' = islandCenters"
    by (simp add: fold_stampIsland_centers emptyWorld_simps)
  note facts = islands_apart [OF run]
  show ?thesis
  proof (intro exI conjI)
    show "createBarrier (scriptedEnv 128 128) 5 (emptyWorld islandScript) = Some (Returned ?s')"
      by (rule run)
    show "barrierCenters ?s' = islandCenters" by (rule cs)
    show "length (barrierCenters ?s') = 12" using facts by (rule conjunct1)
    show "12 \<le> distance (barrierCenters ?s' ! 0) (barrierCenters ?s' ! 1)"
      using facts by simp
    show "barrierLocations ?s' = concat (map (\<lambda>c. crossVisit c 3) (barrierCenters ?s'))"
      using facts by (simp only: scriptedEnv_simps)
    show "setLog ?s' = map (\<lambda>c. (c, BARRIER)) (barrierLocations ?s')"
      using facts by (simp only: emptyWorld_simps append_Nil)
  qed
qed

text \<open>
  Claim C5, on the code. \<open>blockSizeX = 2\<close> and \<open>blockSizeY = p.sizeX / 3\<close> are handed to
  \<open>drawBox\<close> as \<open>x1 = x0 + blockSizeX\<close> and \<open>y1 = y0 + blockSizeY\<close>, and \<open>drawBox\<close> includes
  both ends. On a 100 by 100 grid the five blocks are 3 cells wide and 34 cells high each
  (510 entries), not 2 wide and 33 high (330 entries). No barrier centers are recorded.
\<close>

theorem staggered_blocks_100:
  "\<exists>s'. createBarrier (testEnv 100 100) 3 (emptyWorld ()) = Some (Returned s') \<and>
        barrierLocations s' =
          boxCells 24 9 26 42 @ boxCells 74 9 76 42 @ boxCells 74 59 76 92 @
          boxCells 24 59 26 92 @ boxCells 49 34 51 67 \<and>
        length (boxCells 24 9 26 42) = 3 * 34 \<and>
        length (barrierLocations s') = 510 \<and>
        barrierCenters s' = []"
proof -
  let ?cs = "concat (blocks3 100 100)"
  let ?s' = "fold markCell ?cs (emptyWorld ())"
  have run: "createBarrier (testEnv 100 100) 3 (emptyWorld ()) = Some (Returned ?s')"
    using createBarrier_3 [of "testEnv 100 100" "emptyWorld ()"]
    by (simp add: testEnv_simps emptyWorld_simps)
  have cs: "?cs = boxCells 24 9 26 42 @ boxCells 74 9 76 42 @ boxCells 74 59 76 92 @
          boxCells 24 59 26 92 @ boxCells 49 34 51 67"
    by (simp add: blocks3_def Let_def)
  have locs: "barrierLocations ?s' = ?cs"
    by (simp add: fold_markCell_locations emptyWorld_simps)
  show ?thesis
  proof (intro exI conjI)
    show "createBarrier (testEnv 100 100) 3 (emptyWorld ()) = Some (Returned ?s')" by (rule run)
    show "barrierLocations ?s' = boxCells 24 9 26 42 @ boxCells 74 9 76 42 @ boxCells 74 59 76 92 @
          boxCells 24 59 26 92 @ boxCells 49 34 51 67"
      using locs cs by simp
    show "length (boxCells 24 9 26 42) = 3 * 34" by (simp add: length_boxCells)
    show "length (barrierLocations ?s') = 510"
      by (simp add: fold_markCell_locations emptyWorld_simps cs length_boxCells)
    show "barrierCenters ?s' = []" by (simp add: fold_markCell_centers emptyWorld_simps)
  qed
qed

text \<open>
  Claim C6, as the code has it. The claim puts the bar at y from 3H/4; the code computes
  \<open>p.sizeY / 2 + p.sizeY / 4\<close>, which is one less than 3H/4 whenever H leaves remainder 3 on
  division by 4 (and is not 3 times H/4 either). On a 100 by 103 grid the bar is at y from
  76 to 78, neither from 77 nor from 75:
\<close>

theorem horizontal_bar_not_three_quarters:
  "\<not> (\<exists>s'. createBarrier (testEnv 100 103) 4 (emptyWorld ()) = Some (Returned s') \<and>
          (set (barrierLocations s') =
            {c. 100 div 4 \<le> coord_x c \<and> coord_x c \<le> 100 div 4 + 100 div 2 \<and>
                (3 * 103) div 4 \<le> coord_y c \<and> coord_y c \<le> (3 * 103) div 4 + 2} \<or>
           set (barrierLocations s') =
            {c. 100 div 4 \<le> coord_x c \<and> coord_x c \<le> 100 div 4 + 100 div 2 \<and>
                3 * (103 div 4) \<le> coord_y c \<and> coord_y c \<le> 3 * (103 div 4) + 2}))"
proof
  assume "\<exists>s'. createBarrier (testEnv 100 103) 4 (emptyWorld ()) = Some (Returned s') \<and>
          (set (barrierLocations s') =
            {c. 100 div 4 \<le> coord_x c \<and> coord_x c \<le> 100 div 4 + 100 div 2 \<and>
                (3 * 103) div 4 \<le> coord_y c \<and> coord_y c \<le> (3 * 103) div 4 + 2} \<or>
           set (barrierLocations s') =
            {c. 100 div 4 \<le> coord_x c \<and> coord_x c \<le> 100 div 4 + 100 div 2 \<and>
                3 * (103 div 4) \<le> coord_y c \<and> coord_y c \<le> 3 * (103 div 4) + 2})"
  then obtain s' where run: "createBarrier (testEnv 100 103) 4 (emptyWorld ()) = Some (Returned s')"
    and cells: "set (barrierLocations s') =
            {c. 100 div 4 \<le> coord_x c \<and> coord_x c \<le> 100 div 4 + 100 div 2 \<and>
                (3 * 103) div 4 \<le> coord_y c \<and> coord_y c \<le> (3 * 103) div 4 + 2} \<or>
           set (barrierLocations s') =
            {c. 100 div 4 \<le> coord_x c \<and> coord_x c \<le> 100 div 4 + 100 div 2 \<and>
                3 * (103 div 4) \<le> coord_y c \<and> coord_y c \<le> 3 * (103 div 4) + 2}"
    by blast
  have "createBarrier (testEnv 100 103) 4 (emptyWorld ()) =
        Some (Returned (fold markCell (boxCells 25 76 75 78) (emptyWorld ())))"
    using createBarrier_4 [of "testEnv 100 103" "emptyWorld ()"]
    by (simp add: testEnv_simps emptyWorld_simps)
  with run have "s' = fold markCell (boxCells 25 76 75 78) (emptyWorld ())"
    by simp
  then have "barrierLocations s' = boxCells 25 76 75 78"
    by (simp add: fold_markCell_locations emptyWorld_simps)
  then have in76: "Coord 25 76 \<in> set (barrierLocations s')"
    and in78: "Coord 25 78 \<in> set (barrierLocations s')"
    by (simp_all add: set_boxCells)
  from cells show False
  proof
    assume "set (barrierLocations s') =
            {c. 100 div 4 \<le> coord_x c \<and> coord_x c \<le> 100 div 4 + 100 div 2 \<and>
                (3 * 103) div 4 \<le> coord_y c \<and> coord_y c \<le> (3 * 103) div 4 + 2}"
    with in76 show False by simp
  next
    assume "set (barrierLocations s') =
            {c. 100 div 4 \<le> coord_x c \<and> coord_x c \<le> 100 div 4 + 100 div 2 \<and>
                3 * (103 div 4) \<le> coord_y c \<and> coord_y c \<le> 3 * (103 div 4) + 2}"
    with in78 show False by simp
  qed
qed

text \<open>
  Claim C6, amended. For every grid whose dimensions fit the \<open>int16_t\<close> coordinates
  (at most 32767), selector 4 returns having marked, once each, exactly the cells with
  x in [W/4, W/4 + W/2] and y in [H/2 + H/4, H/2 + H/4 + 2] (divisions truncating): a
  horizontal bar of height 3. It records no barrier centers, and leaves every other cell
  as it was.
\<close>

theorem horizontal_bar:
  assumes "sizeX p \<le> 32767" "sizeY p \<le> 32767"
  shows "\<exists>s'. createBarrier p 4 s = Some (Returned s') \<and>
           barrierLocations s' =
             boxCells (int (sizeX p div 4)) (int (sizeY p div 2) + int (sizeY p div 4))
                      (int (sizeX p div 4) + int (sizeX p div 2))
                      (int (sizeY p div 2) + int (sizeY p div 4) + 2) \<and>
           distinct (barrierLocations s') \<and>
           set (barrierLocations s') =
             {c. int (sizeX p div 4) \<le> coord_x c \<and>
                 coord_x c \<le> int (sizeX p div 4) + int (sizeX p div 2) \<and>
                 int (sizeY p div 2) + int (sizeY p div 4) \<le> coord_y c \<and>
                 coord_y c \<le> int (sizeY p div 2) + int (sizeY p div 4) + 2} \<and>
           barrierCenters s' = [] \<and>
           cells s' = (\<lambda>c. if c \<in> set (barrierLocations s') then BARRIER else cells s c)"
proof (intro exI conjI)
  let ?b = "boxCells (int (sizeX p div 4)) (int (sizeY p div 2) + int (sizeY p div 4))
                      (int (sizeX p div 4) + int (sizeX p div 2))
                      (int (sizeY p div 2) + int (sizeY p div 4) + 2)"
  let ?s' = "fold markCell ?b (s\<lparr>barrierLocations := [], barrierCenters := []\<rparr>)"
  show "createBarrier p 4 s = Some (Returned ?s')"
    using assms by (rule createBarrier_4)
  show locs: "barrierLocations ?s' = ?b"
    by (simp add: fold_markCell_locations)
  show "distinct (barrierLocations ?s')"
    unfolding locs by (rule distinct_boxCells)
  show "set (barrierLocations ?s') =
             {c. int (sizeX p div 4) \<le> coord_x c \<and>
                 coord_x c \<le> int (sizeX p div 4) + int (sizeX p div 2) \<and>
                 int (sizeY p div 2) + int (sizeY p div 4) \<le> coord_y c \<and>
                 coord_y c \<le> int (sizeY p div 2) + int (sizeY p div 4) + 2}"
    unfolding locs by (rule set_boxCells)
  show "barrierCenters ?s' = []"
    by (simp add: fold_markCell_centers)
  show "cells ?s' = (\<lambda>c. if c \<in> set (barrierLocations ?s') then BARRIER else cells s c)"
    unfolding locs by (rule ext) (simp add: fold_markCell_cells)
qed

theorem horizontal_bar_witness:
  "\<exists>s'. createBarrier (testEnv 100 100) 4 (emptyWorld ()) = Some (Returned s') \<and>
        barrierLocations s' = boxCells 25 75 75 77 \<and>
        length (barrierLocations s') = 153 \<and>
        barrierCenters s' = []"
proof -
  from horizontal_bar [of "testEnv 100 100" "emptyWorld ()"]
  obtain s' where "createBarrier (testEnv 100 100) 4 (emptyWorld ()) = Some (Returned s')"
    "barrierLocations s' = boxCells 25 75 75 77" "barrierCenters s' = []"
    by (auto simp: testEnv_simps)
  then show ?thesis by (simp add: length_boxCells)
qed

text \<open>
  Claim C7, as the code has it. The variants are not total for every grid size: the loop
  counters are \<open>int16_t\<close>, and a loop whose upper bound is 32767 never ends. With
  \<open>p.sizeX = 65532\<close> selector 1 computes \<open>minX = 32766\<close> and \<open>maxX = 32767\<close>, and the call
  has no outcome.
\<close>

theorem vertical_bar_never_ends_65532:
  "createBarrier (testEnv 65532 100) 1 (emptyWorld ()) = None"
proof -
  have ids: "int16_t 32766 = 32766" "int16_t 32767 = 32767" "int16_t 25 = 25" "int16_t 75 = 75"
    by (simp_all add: int16_t_def)
  have "barrier1 (testEnv 65532 100) (emptyWorld ()) = xLoop 32766 25 32767 75 (emptyWorld ())"
    by (simp add: barrier1_def Let_def testEnv_simps ids)
  also have "\<dots> = None" by (rule xLoop_never_ends) simp
  finally show ?thesis
    by (simp add: createBarrier_def Let_def emptyWorld_simps)
qed

text \<open>
  Claim C7, amended. A selector above 6 ends the call at \<open>assert(false)\<close>: the outcome is
  the abort, not a returned value. A selector from 0 to 6 never ends that way. Selectors 0
  and 6 always return; selectors 1, 3 and 4 return for grid dimensions within the
  \<open>int16_t\<close> range (at most 32767); selector 2 returns for \<open>sizeX\<close> at most 32767, \<open>sizeY\<close>
  below 32767 and a random source that draws within the bounds it is given. Selector 5 is
  left to its sampling loop.
\<close>

theorem only_the_default_aborts:
  "(6 < t \<longrightarrow> (\<exists>s'. createBarrier p t s = Some (AssertFailed s'))) \<and>
   (t \<le> 6 \<longrightarrow> (\<forall>s'. createBarrier p t s \<noteq> Some (AssertFailed s'))) \<and>
   (t = 0 \<or> t = 6 \<longrightarrow> (\<exists>s'. createBarrier p t s = Some (Returned s'))) \<and>
   ((t = 1 \<or> t = 3 \<or> t = 4) \<and> sizeX p \<le> 32767 \<and> sizeY p \<le> 32767 \<longrightarrow>
      (\<exists>s'. createBarrier p t s = Some (Returned s'))) \<and>
   (t = 2 \<and> sizeX p \<le> 32767 \<and> sizeY p < 32767 \<and> drawsInRange p \<longrightarrow>
      (\<exists>s'. createBarrier p t s = Some (Returned s')))"
proof (intro conjI impI)
  assume "6 < t"
  then show "\<exists>s'. createBarrier p t s = Some (AssertFailed s')"
    by (simp add: createBarrier_def Let_def)
next
  assume "t \<le> 6"
  then show "\<forall>s'. createBarrier p t s \<noteq> Some (AssertFailed s')"
    by (auto simp: createBarrier_def Let_def)
next
  assume "t = 0 \<or> t = 6"
  then show "\<exists>s'. createBarrier p t s = Some (Returned s')"
  proof
    assume "t = 0"
    then show ?thesis by (simp add: createBarrier_def Let_def)
  next
    assume "t = 6"
    then show ?thesis using createBarrier_6 [of p s] by blast
  qed
next
  assume a: "(t = 1 \<or> t = 3 \<or> t = 4) \<and> sizeX p \<le> 32767 \<and> sizeY p \<le> 32767"
  then have sz: "sizeX p \<le> 32767" "sizeY p \<le> 32767" by simp_all
  from a consider "t = 1" | "t = 3" | "t = 4" by blast
  then show "\<exists>s'. createBarrier p t s = Some (Returned s')"
  proof cases
    case 1
    then show ?thesis using createBarrier_1 [OF sz] by simp
  next
    case 2
    then show ?thesis using createBarrier_3 [OF sz] by simp
  next
    case 3
    then show ?thesis using createBarrier_4 [OF sz] by simp
  qed
next
  assume a: "t = 2 \<and> sizeX p \<le> 32767 \<and> sizeY p < 32767 \<and> drawsInRange p"
  then have "\<exists>s'. barrier2 p (s\<lparr>barrierLocations := [], barrierCenters := []\<rparr>) = Some s'"
    by (intro barrier2_returns) simp_all
  then obtain s' where
    "barrier2 p (s\<lparr>barrierLocations := [], barrierCenters := []\<rparr>) = Some s'" by blast
  with a show "\<exists>s'. createBarrier p t s = Some (Returned s')"
    by (simp add: createBarrier_def Let_def)
qed

theorem only_the_default_aborts_witness:
  "(\<exists>s'. createBarrier (testEnv 100 100) 7 (emptyWorld ()) = Some (AssertFailed s')) \<and>
   (\<forall>s'. createBarrier (testEnv 100 100) 2 (emptyWorld ()) \<noteq> Some (AssertFailed s')) \<and>
   (\<exists>s'. createBarrier (testEnv 100 100) 6 (emptyWorld ()) = Some (Returned s')) \<and>
   (\<exists>s'. createBarrier (testEnv 100 100) 3 (emptyWorld ()) = Some (Returned s')) \<and>
   (\<exists>s'. createBarrier (testEnv 100 100) 2 (emptyWorld ()) = Some (Returned s'))"
  using only_the_default_aborts [of 7 "testEnv 100 100" "emptyWorld ()"]
    only_the_default_aborts [of 2 "testEnv 100 100" "emptyWorld ()"]
    only_the_default_aborts [of 6 "testEnv 100 100" "emptyWorld ()"]
    only_the_default_aborts [of 3 "testEnv 100 100" "emptyWorld ()"]
  by (simp add: testEnv_simps drawsInRange_testEnv)




text \<open>
  Claim C9. On a 100 by 100 grid selector 1 returns with \<open>barrierLocations\<close> holding 102
  entries, each once: the cells with x in {50, 51} and y from 25 to 75, column by column;
  \<open>barrierCenters\<close> is empty.
\<close>

theorem vertical_bar_100:
  "\<exists>s'. createBarrier (p\<lparr>sizeX := 100, sizeY := 100\<rparr>) 1 s = Some (Returned s') \<and>
        barrierLocations s' = boxCells 50 25 51 75 \<and>
        length (barrierLocations s') = 102 \<and>
        distinct (barrierLocations s') \<and>
        set (barrierLocations s') = {c. coord_x c \<in> {50, 51} \<and> 25 \<le> coord_y c \<and> coord_y c \<le> 75} \<and>
        barrierCenters s' = []"
proof -
  let ?p = "p\<lparr>sizeX := 100, sizeY := 100\<rparr>"
  let ?s = "s\<lparr>barrierLocations := [], barrierCenters := []\<rparr>"
  have "barrier1 ?p ?s = Some (fold markCell (boxCells 50 25 51 75) ?s)"
    using barrier1_closed [of ?p ?s] by simp
  then have run: "createBarrier ?p 1 s = Some (Returned (fold markCell (boxCells 50 25 51 75) ?s))"
    by (simp add: createBarrier_def)
  have "{c. 50 \<le> coord_x c \<and> coord_x c \<le> 51 \<and> 25 \<le> coord_y c \<and> coord_y c \<le> 75}
      = {c. coord_x c \<in> {50, 51} \<and> 25 \<le> coord_y c \<and> coord_y c \<le> 75}"
    by auto
  then show ?thesis
    unfolding run
    by (simp add: fold_markCell_locations fold_markCell_centers length_boxCells
        distinct_boxCells set_boxCells)
qed

text \<open>
  Claim C10. \<open>createBarrier\<close> empties \<open>barrierLocations\<close> and \<open>barrierCenters\<close> before it
  looks at the selector: whatever the two records held before the call has no influence on
  the outcome. With a selector above 6 the call stops at \<open>assert(false)\<close> in the state it
  was given with both records emptied: no cell written, no \<open>grid.set\<close> issued, and the
  records of the call before are gone.
\<close>

theorem unknown_selector_after_clear:
  "createBarrier p t (s\<lparr>barrierLocations := ls, barrierCenters := cs\<rparr>) = createBarrier p t s \<and>
   (6 < t \<longrightarrow>
      createBarrier p t s = Some (AssertFailed (s\<lparr>barrierLocations := [], barrierCenters := []\<rparr>)))"
  by (simp add: createBarrier_def)

theorem unknown_selector_after_clear_witness:
  "6 < (7::nat) \<and>
   createBarrier (testEnv 100 100) 7
     ((emptyWorld ())\<lparr>barrierLocations := [Coord 1 2], barrierCenters := [Coord 3 4]\<rparr>)
   = Some (AssertFailed (emptyWorld ()))"
  using unknown_selector_after_clear [where p = "testEnv 100 100" and t = 7 and s = "emptyWorld ()"
      and ls = "[Coord 1 2]" and cs = "[Coord 3 4]"]
  by (simp add: emptyWorld_def)

end
